theory Spec2Isabelle
  imports Complex_Main "HOL-Library.Sublist" "HOL-Library.AList"
begin

section \<open>Python strings\<close>

text \<open>
  A Python \<open>str\<close> is modelled as a \<open>string\<close> holding its UTF-8 bytes. The texts the program
  compares against are ASCII, apart from the naira sign U+20A6, whose UTF-8 encoding is the
  three bytes E2 82 A6; a substring test on the bytes agrees with the test on code points.
  \<open>lower\<close>, \<open>strip\<close>, \<open>isdigit\<close> and the regular expression class \<open>\d\<close> are modelled on
  their ASCII range: bytes outside it are left alone by \<open>py_lower\<close>, are not white space and
  are not digits.
\<close>

definition lower_char :: "char \<Rightarrow> char" where
  "lower_char c =
     (case map_of (zip ''ABCDEFGHIJKLMNOPQRSTUVWXYZ'' ''abcdefghijklmnopqrstuvwxyz'') c of
        Some l \<Rightarrow> l
      | None \<Rightarrow> c)"

definition py_lower :: "string \<Rightarrow> string" where
  "py_lower s = map lower_char s"

definition is_space :: "char \<Rightarrow> bool" where
  "is_space c = (c \<in> set [CHR '' '', CHR 0x09, CHR 0x0A, CHR 0x0B, CHR 0x0C, CHR 0x0D,
                           CHR 0x1C, CHR 0x1D, CHR 0x1E, CHR 0x1F])"

definition py_strip :: "string \<Rightarrow> string" where
  "py_strip s = rev (dropWhile is_space (rev (dropWhile is_space s)))"

definition is_digit :: "char \<Rightarrow> bool" where
  "is_digit c = (c \<in> set ''0123456789'')"

definition py_isdigit :: "string \<Rightarrow> bool" where
  "py_isdigit s = (s \<noteq> [] \<and> list_all is_digit s)"

text \<open>\<open>p in s\<close> on strings: \<open>p\<close> occurs in \<open>s\<close> as a contiguous run.\<close>

fun py_in :: "string \<Rightarrow> string \<Rightarrow> bool" where
  "py_in p [] = (p = [])"
| "py_in p (c # s) = (prefix p (c # s) \<or> py_in p s)"

text \<open>\<open>sep.join(xs)\<close>.\<close>

fun py_join :: "string \<Rightarrow> string list \<Rightarrow> string" where
  "py_join sep [] = []"
| "py_join sep [x] = x"
| "py_join sep (x # y # ys) = x @ sep @ py_join sep (y # ys)"

text \<open>\<open>s.replace(c, '')\<close> for a one-character \<open>c\<close>.\<close>

definition remove_char :: "char \<Rightarrow> string \<Rightarrow> string" where
  "remove_char c s = filter (\<lambda>d. d \<noteq> c) s"

definition naira :: string where
  "naira = [CHR 0xE2, CHR 0x82, CHR 0xA6]"

definition digit_char :: "nat \<Rightarrow> char" where
  "digit_char n = ''0123456789'' ! (n mod 10)"

text \<open>\<open>str(n)\<close> for a non-negative integer.\<close>

function str_nat :: "nat \<Rightarrow> string" where
  "str_nat n = (if n < 10 then [digit_char n] else str_nat (n div 10) @ [digit_char n])"
  by pat_completeness auto
termination
  by (relation "measure id") auto

declare str_nat.simps [simp del]

section \<open>Cells and the raw grid\<close>

text \<open>
  \<open>pd.read_excel(..., header=None)\<close> gives a frame of untyped cells. A cell is absent
  (the \<open>NaN\<close> of an empty cell; the missing values \<open>NaT\<close> and \<open>pd.NA\<close> that the transforms
  store are modelled by it too, and \<open>pd.isna\<close> holds of it alone), a text, a number or a
  time stamp.
  A number carries its value and the text \<open>str()\<close> renders for it, so that no property
  depends on how Python prints a float; the value is the exact decimal value (rounding to
  the nearest double, which keeps sign and order, is not modelled).
\<close>

record datetime =
  year :: nat
  month :: nat
  day :: nat
  hour :: nat
  minute :: nat
  second :: nat

datatype cell = Absent | Text string | Number rat string | Stamp datetime

type_synonym grid = "cell list list"

definition pad2 :: "nat \<Rightarrow> string" where
  "pad2 n = [digit_char (n div 10), digit_char n]"

definition pad4 :: "nat \<Rightarrow> string" where
  "pad4 n = [digit_char (n div 1000), digit_char (n div 100), digit_char (n div 10), digit_char n]"

text \<open>\<open>str(d)\<close> for a \<open>datetime\<close> without microseconds: \<open>YYYY-MM-DD HH:MM:SS\<close>.\<close>

definition str_datetime :: "datetime \<Rightarrow> string" where
  "str_datetime d =
     pad4 (year d) @ ''-'' @ pad2 (month d) @ ''-'' @ pad2 (day d) @ '' '' @
     pad2 (hour d) @ '':'' @ pad2 (minute d) @ '':'' @ pad2 (second d)"

fun py_str :: "cell \<Rightarrow> string" where
  "py_str Absent = ''nan''"
| "py_str (Text s) = s"
| "py_str (Number v t) = t"
| "py_str (Stamp d) = str_datetime d"

fun notna :: "cell \<Rightarrow> bool" where
  "notna Absent = False"
| "notna c = True"

datatype py_error = ValueError string | KeyError string | PyException string

section \<open>Header Locator (\<open>process_kuda_excel\<close>, lines 41 to 95)\<close>

text \<open>\<open>row_str = [str(x).lower() for x in row.values]\<close>\<close>

definition row_str :: "cell list \<Rightarrow> string list" where
  "row_str row = map (\<lambda>x. py_lower (py_str x)) row"

text \<open>Lines 45 to 52: the look at row 15, column 2. The test is \<open>in\<close>, a substring test.\<close>

definition positional_check :: "grid \<Rightarrow> nat option" where
  "positional_check df_raw =
     (if length df_raw > 15
      then (let row_15 = df_raw ! 15
            in if length row_15 > 2 \<and> py_in ''date/time'' (py_lower (py_str (row_15 ! 2)))
               then Some 15 else None)
      else None)"

text \<open>Line 63: \<open>any(x.lower() == 'date/time' for x in row_str)\<close>\<close>

definition exact_row :: "cell list \<Rightarrow> bool" where
  "exact_row row = list_ex (\<lambda>x. py_lower x = ''date/time'') (row_str row)"

text \<open>Lines 69 and 70: a cell with \<open>date\<close> and a cell with \<open>money\<close>.\<close>

definition alt_row :: "cell list \<Rightarrow> bool" where
  "alt_row row =
     (list_ex (\<lambda>x. py_in ''date'' (py_lower x)) (row_str row) \<and>
      list_ex (\<lambda>x. py_in ''money'' (py_lower x)) (row_str row))"

text \<open>Lines 56 to 73: one loop over the rows; both tests are made on a row before the next
  row is read, and the first row passing either ends the loop.\<close>

fun general_search :: "nat \<Rightarrow> grid \<Rightarrow> nat option" where
  "general_search i [] = None"
| "general_search i (row # rest) =
     (if exact_row row then Some i
      else if alt_row row then Some i
      else general_search (Suc i) rest)"

text \<open>Lines 79 to 81. \<open>'date' in row_values\<close> is list membership; the others are substring
  tests on the joined text.\<close>

definition partial_row :: "cell list \<Rightarrow> bool" where
  "partial_row row =
     (let row_values = map (\<lambda>x. py_lower (py_str x)) (filter notna row)
      in (''date'' \<in> set row_values \<or> ''time'' \<in> set row_values \<or>
          py_in ''date/time'' (py_join '' '' row_values)) \<and>
         (py_in ''money'' (py_join '' '' row_values) \<or>
          py_in ''balance'' (py_join '' '' row_values)))"

fun partial_search :: "nat \<Rightarrow> grid \<Rightarrow> nat option" where
  "partial_search i [] = None"
| "partial_search i (row # rest) =
     (if partial_row row then Some i else partial_search (Suc i) rest)"

definition header_not_found_msg :: string where
  "header_not_found_msg =
     ''Could not find the transaction data header in the Excel file. Looking for '' @
     [CHR 0x27] @ ''Date/Time'' @ [CHR 0x27] @
     '' or similar headers in row 15 at cell C16.''"

definition locate_header :: "grid \<Rightarrow> py_error + nat" where
  "locate_header df_raw =
     (let header_row_idx = positional_check df_raw;
          header_row_idx = (case header_row_idx of
                              None \<Rightarrow> general_search 0 df_raw
                            | Some h \<Rightarrow> Some h);
          header_row_idx = (case header_row_idx of
                              None \<Rightarrow> partial_search 0 df_raw
                            | Some h \<Rightarrow> Some h)
      in case header_row_idx of
           None \<Rightarrow> Inl (ValueError header_not_found_msg)
         | Some h \<Rightarrow> Inr h)"

section \<open>Column Mapper (lines 104 to 144)\<close>

text \<open>\<open>required_columns\<close>: a dict, read in insertion order.\<close>

definition required_columns :: "(string \<times> string) list" where
  "required_columns =
     [(''date/time'', ''Date/Time''), (''money in'', ''Money In''),
      (''money out'', ''Money out''), (''category'', ''Category''),
      (''to / from'', ''To / From''), (''description'', ''Description''),
      (''balance'', ''Balance'')]"

text \<open>
  The inner loop of both passes: \<open>for key in required_columns: if <hit key>:
  column_indices[required_columns[key]] = i; break\<close>. \<open>column_indices\<close> is a dict, modelled
  as an association list in insertion order; the assignment is unconditional, so it replaces
  the index of a name already present.
\<close>

fun assign_first ::
  "(string \<Rightarrow> bool) \<Rightarrow> (string \<times> string) list \<Rightarrow> nat \<Rightarrow> (string \<times> nat) list \<Rightarrow> (string \<times> nat) list"
where
  "assign_first hit [] i column_indices = column_indices"
| "assign_first hit ((key, name) # keys) i column_indices =
     (if hit key then AList.update name i column_indices
      else assign_first hit keys i column_indices)"

text \<open>Lines 115 to 120, from cell \<open>i\<close> on.\<close>

fun exact_pass :: "nat \<Rightarrow> cell list \<Rightarrow> (string \<times> nat) list \<Rightarrow> (string \<times> nat) list" where
  "exact_pass i [] column_indices = column_indices"
| "exact_pass i (cell # rest) column_indices =
     (let cell_str = py_lower (py_strip (py_str cell))
      in exact_pass (Suc i) rest
           (assign_first (\<lambda>key. key = cell_str) required_columns i column_indices))"

text \<open>Lines 124 to 132, from cell \<open>i\<close> on.\<close>

fun substring_pass :: "nat \<Rightarrow> cell list \<Rightarrow> (string \<times> nat) list \<Rightarrow> (string \<times> nat) list" where
  "substring_pass i [] column_indices = column_indices"
| "substring_pass i (cell # rest) column_indices =
     (if \<not> notna cell then substring_pass (Suc i) rest column_indices
      else (let cell_str = py_lower (py_strip (py_str cell))
            in substring_pass (Suc i) rest
                 (assign_first (\<lambda>key. py_in key cell_str) required_columns i column_indices)))"

definition map_columns :: "cell list \<Rightarrow> (string \<times> nat) list" where
  "map_columns header_row =
     (let column_indices = exact_pass 0 header_row []
      in if length column_indices < length required_columns
         then substring_pass 0 header_row column_indices
         else column_indices)"

text \<open>Lines 135 to 144.\<close>

definition final_columns :: "cell list \<Rightarrow> (string \<times> nat) list \<Rightarrow> string list" where
  "final_columns header_row column_indices =
     map (\<lambda>i. case find (\<lambda>(col_name, col_index). i = col_index) column_indices of
                 Some (col_name, col_index) \<Rightarrow> col_name
               | None \<Rightarrow> ''column_'' @ str_nat i)
         [0..<length header_row]"

section \<open>Metadata Extractor (lines 155 to 224)\<close>

record metadata =
  account_number :: "string option"
  closing_balance :: "string option"
  summary_in :: "string option"
  summary_out :: "string option"

text \<open>Lines 166 and 167: \<open>' '.join([str(x) for x in row.values if pd.notna(x)]).lower()\<close>\<close>

definition row_text :: "cell list \<Rightarrow> string" where
  "row_text row = py_lower (py_join '' '' (map py_str (filter notna row)))"

text \<open>Lines 172 to 181, over the cell positions \<open>js\<close>; a hit ends the loop.\<close>

fun account_scan :: "cell list \<Rightarrow> nat list \<Rightarrow> string option \<Rightarrow> string option" where
  "account_scan row [] account = account"
| "account_scan row (j # js) account =
     (if notna (row ! j) \<and> py_in ''account'' (py_lower (py_str (row ! j)))
      then (if j + 1 < length row \<and> notna (row ! (j + 1))
            then Some (py_str (row ! (j + 1)))
            else if j \<ge> 1 \<and> notna (row ! (j - 1)) \<and> py_isdigit (py_str (row ! (j - 1)))
            then Some (py_str (row ! (j - 1)))
            else account_scan row js account)
      else account_scan row js account)"

text \<open>Lines 189 to 192: the test a cell after the trigger has to pass.\<close>

definition looks_like_money :: "cell \<Rightarrow> bool" where
  "looks_like_money c =
     (notna c \<and>
      (py_in naira (py_str c) \<or>
       py_in ''n'' (py_lower (py_str c)) \<or>
       py_isdigit (remove_char (CHR ''.'') (remove_char (CHR '','') (py_str c)))))"

text \<open>Lines 188 to 195: \<open>for k in range(j+1, min(j+3, len(row)))\<close>, ended by the first hit.\<close>

definition balance_window :: "cell list \<Rightarrow> nat \<Rightarrow> string option" where
  "balance_window row j =
     map_option (\<lambda>k. py_str (row ! k))
       (find (\<lambda>k. k < length row \<and> looks_like_money (row ! k))
             [j + 1..<min (j + 3) (length row)])"

text \<open>Lines 186 to 195, over the cell positions \<open>js\<close>. The \<open>break\<close> ends the window only:
  the loop over the cells goes on, and a later trigger cell replaces the value.\<close>

fun closing_scan :: "cell list \<Rightarrow> nat list \<Rightarrow> string option \<Rightarrow> string option" where
  "closing_scan row [] closing = closing"
| "closing_scan row (j # js) closing =
     (if notna (row ! j) \<and>
         (py_in ''balance'' (py_lower (py_str (row ! j))) \<or>
          py_in ''closing'' (py_lower (py_str (row ! j))))
      then closing_scan row js
             (case balance_window row j of Some v \<Rightarrow> Some v | None \<Rightarrow> closing)
      else closing_scan row js closing)"

text \<open>Lines 213 to 217 and 220 to 224: every cell holding the keyword gives its right
  neighbour, when that one is present; no \<open>break\<close>.\<close>

fun neighbour_scan :: "string \<Rightarrow> cell list \<Rightarrow> nat list \<Rightarrow> string option \<Rightarrow> string option" where
  "neighbour_scan kw row_data [] found = found"
| "neighbour_scan kw row_data (k # ks) found =
     (if notna (row_data ! k) \<and> py_in kw (py_lower (py_str (row_data ! k))) \<and>
         k + 1 < length row_data \<and> notna (row_data ! (k + 1))
      then neighbour_scan kw row_data ks (Some (py_str (row_data ! (k + 1))))
      else neighbour_scan kw row_data ks found)"

text \<open>Lines 203 to 224, over the row numbers \<open>js\<close>.\<close>

fun summary_scan :: "grid \<Rightarrow> nat list \<Rightarrow> metadata \<Rightarrow> metadata" where
  "summary_scan df_raw [] m = m"
| "summary_scan df_raw (j # js) m =
     (if j \<ge> length df_raw then m
      else (let row_data = df_raw ! j;
                row_data_text = row_text row_data;
                m = (if py_in ''money in'' row_data_text
                     then m\<lparr>summary_in :=
                              neighbour_scan ''money in'' row_data [0..<length row_data]
                                (summary_in m)\<rparr>
                     else m);
                m = (if py_in ''money out'' row_data_text
                     then m\<lparr>summary_out :=
                              neighbour_scan ''money out'' row_data [0..<length row_data]
                                (summary_out m)\<rparr>
                     else m)
            in summary_scan df_raw js m))"

text \<open>Lines 162 to 224, over the row numbers \<open>is\<close>.\<close>

fun metadata_scan :: "grid \<Rightarrow> nat \<Rightarrow> nat list \<Rightarrow> metadata \<Rightarrow> metadata" where
  "metadata_scan df_raw header_row_idx [] m = m"
| "metadata_scan df_raw header_row_idx (i # is) m =
     (if i \<ge> header_row_idx then m
      else (let row = df_raw ! i;
                text = row_text row;
                m = (if py_in ''account'' text
                     then m\<lparr>account_number :=
                              account_scan row [0..<length row] (account_number m)\<rparr>
                     else m);
                m = (if py_in ''balance'' text \<or> py_in ''closing'' text
                     then m\<lparr>closing_balance :=
                              closing_scan row [0..<length row] (closing_balance m)\<rparr>
                     else m);
                m = (if py_in ''summary'' text
                     then summary_scan df_raw [i + 1..<min (i + 5) header_row_idx] m
                     else m)
            in metadata_scan df_raw header_row_idx is m))"

definition extract_metadata :: "grid \<Rightarrow> nat \<Rightarrow> metadata" where
  "extract_metadata df_raw header_row_idx =
     metadata_scan df_raw header_row_idx [0..<length df_raw]
       \<lparr>account_number = None, closing_balance = None, summary_in = None, summary_out = None\<rparr>"

section \<open>Table Builder (lines 97 to 153 and 226 to 250)\<close>

text \<open>
  A \<open>DataFrame\<close>: the column names, the rows in order, and \<open>attrs\<close>. Every row has one cell
  for each column name.
\<close>

record dataframe =
  df_columns :: "string list"
  df_rows :: "cell list list"
  df_attrs :: metadata

definition required_columns_list :: "string list" where
  "required_columns_list =
     [''Date/Time'', ''Money In'', ''Money out'', ''Category'', ''To / From'',
      ''Description'', ''Balance'']"

text \<open>Lines 239 to 241: \<open>if col not in df.columns: df[col] = np.nan\<close>\<close>

definition add_missing :: "string \<Rightarrow> dataframe \<Rightarrow> dataframe" where
  "add_missing col df =
     (if col \<in> set (df_columns df) then df
      else df\<lparr>df_columns := df_columns df @ [col],
              df_rows := map (\<lambda>r. r @ [Absent]) (df_rows df)\<rparr>)"

text \<open>\<open>df[cols]\<close> for a list of names: a name picks every column that bears it, in place
  order; a name no column bears is a \<open>KeyError\<close>.\<close>

definition positions_of :: "string \<Rightarrow> string list \<Rightarrow> nat list" where
  "positions_of col names = filter (\<lambda>i. names ! i = col) [0..<length names]"

definition select_columns :: "string list \<Rightarrow> dataframe \<Rightarrow> py_error + dataframe" where
  "select_columns cols df =
     (case find (\<lambda>c. c \<notin> set (df_columns df)) cols of
        Some c \<Rightarrow> Inl (KeyError c)
      | None \<Rightarrow>
          (let idxs = concat (map (\<lambda>c. positions_of c (df_columns df)) cols)
           in Inr (df\<lparr>df_columns := map (\<lambda>i. df_columns df ! i) idxs,
                       df_rows := map (\<lambda>r. map (\<lambda>i. r ! i) idxs) (df_rows df)\<rparr>)))"

text \<open>The body of the \<open>try\<close>, from the grid on (reading the file is not modelled).\<close>

definition process_body :: "grid \<Rightarrow> py_error + dataframe" where
  "process_body df_raw =
     (case locate_header df_raw of
        Inl e \<Rightarrow> Inl e
      | Inr header_row_idx \<Rightarrow>
          (let df_transactions = drop header_row_idx df_raw;
               header_row = hd df_transactions;
               column_indices = map_columns header_row;
               df = \<lparr>df_columns = final_columns header_row column_indices,
                     df_rows = drop 1 df_transactions,
                     df_attrs = extract_metadata df_raw header_row_idx\<rparr>;
               df = fold add_missing required_columns_list df
           in select_columns required_columns_list df))"

fun error_text :: "py_error \<Rightarrow> string" where
  "error_text (ValueError msg) = msg"
| "error_text (KeyError msg) = msg"
| "error_text (PyException msg) = msg"

text \<open>Lines 252 to 256: every exception leaves as a plain \<open>Exception\<close> with a prefixed text.\<close>

definition process_kuda_excel :: "grid \<Rightarrow> py_error + dataframe" where
  "process_kuda_excel df_raw =
     (case process_body df_raw of
        Inl e \<Rightarrow> Inl (PyException (''Error processing Kuda Bank Excel file: '' @ error_text e))
      | Inr df \<Rightarrow> Inr df)"

section \<open>Auxiliary notions for the Column Mapper\<close>

text \<open>
  The text both passes compare, and the canonical name the inner loop of each pass assigns
  for a cell (\<open>None\<close> when the loop ends without an assignment). \<open>label_pass\<close> is the
  common shape of the two passes; they are shown equal to it below.
\<close>

definition cell_str :: "cell \<Rightarrow> string" where
  "cell_str c = py_lower (py_strip (py_str c))"

definition exact_label :: "cell \<Rightarrow> string option" where
  "exact_label c = map_option snd (find (\<lambda>(key, name). key = cell_str c) required_columns)"

definition substring_label :: "cell \<Rightarrow> string option" where
  "substring_label c =
     (if notna c then map_option snd (find (\<lambda>(key, name). py_in key (cell_str c)) required_columns)
      else None)"

fun label_pass ::
  "(cell \<Rightarrow> string option) \<Rightarrow> nat \<Rightarrow> cell list \<Rightarrow> (string \<times> nat) list \<Rightarrow> (string \<times> nat) list"
where
  "label_pass L i [] ci = ci"
| "label_pass L i (c # cs) ci =
     label_pass L (Suc i) cs (case L c of Some name \<Rightarrow> AList.update name i ci | None \<Rightarrow> ci)"

text \<open>The labelling in force for a header row: that of the last pass that ran.\<close>

definition column_label :: "cell list \<Rightarrow> cell \<Rightarrow> string option" where
  "column_label header_row =
     (if length (exact_pass 0 header_row []) < length required_columns
      then substring_label else exact_label)"

section \<open>Frames as values: column statements\<close>

text \<open>
  The transforms work on one column at a time. Column names are taken to be distinct, as
  they are in every frame \<open>process_kuda_excel\<close> returns; \<open>df[name]\<close> is then the column at
  the first position bearing the name. A statement \<open>df[name] = df[name].op(...)\<close> with an
  element-wise \<open>op\<close> (\<open>replace\<close>, \<open>fillna\<close>, \<open>astype\<close>, \<open>apply\<close>) rewrites every cell of that
  column and leaves the other cells, the column names, the number and order of the rows and
  \<open>attrs\<close> alone.
\<close>

definition column_index :: "string \<Rightarrow> dataframe \<Rightarrow> nat option" where
  "column_index name df =
     (case positions_of name (df_columns df) of [] \<Rightarrow> None | i # rest \<Rightarrow> Some i)"

definition map_column :: "string \<Rightarrow> (cell \<Rightarrow> cell) \<Rightarrow> dataframe \<Rightarrow> dataframe" where
  "map_column name f df =
     (case column_index name df of
        None \<Rightarrow> df
      | Some i \<Rightarrow> df\<lparr>df_rows := map (\<lambda>r. r[i := f (r ! i)]) (df_rows df)\<rparr>)"

text \<open>\<open>.replace(old, new)\<close> with a text \<open>old\<close>; \<open>.fillna(new)\<close>; \<open>.astype(str)\<close>.\<close>

definition replace_text :: "string \<Rightarrow> cell \<Rightarrow> cell \<Rightarrow> cell" where
  "replace_text old new c = (if c = Text old then new else c)"

definition fillna :: "cell \<Rightarrow> cell \<Rightarrow> cell" where
  "fillna new c = (if notna c then c else new)"

definition astype_str :: "cell \<Rightarrow> cell" where
  "astype_str c = Text (py_str c)"

section \<open>\<open>clean_money_columns\<close> (lines 258 to 361)\<close>

text \<open>
  \<open>float(s)\<close> for the texts that reach it here: \<open>re.sub(r'[^\d.]', '', x_str)\<close> leaves digits
  and dots only. Such a text is a number when it has at most one dot and at least one digit;
  anything else is a \<open>ValueError\<close>.
\<close>

definition digit_value :: "char \<Rightarrow> nat" where
  "digit_value c = length (takeWhile (\<lambda>d. d \<noteq> c) ''0123456789'')"

definition digits_value :: "string \<Rightarrow> nat" where
  "digits_value s = foldl (\<lambda>a c. 10 * a + digit_value c) 0 s"

definition py_float :: "string \<Rightarrow> py_error + rat" where
  "py_float s =
     (let whole = takeWhile is_digit s; rest = dropWhile is_digit s
      in case rest of
           [] \<Rightarrow> if whole = [] then Inl (ValueError ''could not convert string to float'')
                  else Inr (of_nat (digits_value whole))
         | c # decimals \<Rightarrow>
             if c = CHR ''.'' \<and> list_all is_digit decimals \<and> (whole \<noteq> [] \<or> decimals \<noteq> [])
             then Inr (of_nat (digits_value whole) +
                       of_nat (digits_value decimals) / of_nat (10 ^ length decimals))
             else Inl (ValueError ''could not convert string to float''))"

text \<open>Lines 278 to 296: the value the closure returns. A bare \<open>except\<close> turns every failure
  of the conversion into 0.\<close>

definition clean_money_in :: "cell \<Rightarrow> rat" where
  "clean_money_in x =
     (if \<not> notna x then 0
      else case x of
             Number v t \<Rightarrow> v
           | _ \<Rightarrow>
               (let x_str = py_str x
                in if py_strip x_str = [] \<or> py_lower x_str = ''nan'' then 0
                   else (case py_float (filter (\<lambda>c. is_digit c \<or> c = CHR ''.'') x_str) of
                           Inr v \<Rightarrow> v
                         | Inl e \<Rightarrow> 0)))"

text \<open>Lines 308 to 326 and 338 to 356: the same body; only the printed text differs.\<close>

definition clean_money_out :: "cell \<Rightarrow> rat" where
  "clean_money_out x = clean_money_in x"

definition clean_balance :: "cell \<Rightarrow> rat" where
  "clean_balance x = clean_money_in x"

text \<open>
  One block \<open>if name in df.columns: ...\<close>: two \<open>replace\<close> statements and the \<open>apply\<close>. The new
  cell is a number; \<open>fstr\<close> stands for the text Python gives for it.
\<close>

definition money_block ::
  "string \<Rightarrow> (cell \<Rightarrow> rat) \<Rightarrow> (rat \<Rightarrow> string) \<Rightarrow> dataframe \<Rightarrow> dataframe" where
  "money_block name clean fstr df =
     (if name \<in> set (df_columns df)
      then (let df = map_column name (replace_text [] Absent) df;
                df = map_column name (replace_text ''nan'' Absent) df
            in map_column name (\<lambda>x. Number (clean x) (fstr (clean x))) df)
      else df)"

text \<open>The value a cell of a money column ends with.\<close>

definition normalize_money :: "cell \<Rightarrow> rat" where
  "normalize_money x = clean_money_in (replace_text ''nan'' Absent (replace_text [] Absent x))"

definition clean_money_columns :: "(rat \<Rightarrow> string) \<Rightarrow> dataframe \<Rightarrow> dataframe" where
  "clean_money_columns fstr df =
     (let df = money_block ''Money In'' clean_money_in fstr df;
          df = money_block ''Money out'' clean_money_out fstr df
      in money_block ''Balance'' clean_balance fstr df)"

section \<open>\<open>datetime.strptime\<close> for the directives the program uses\<close>

text \<open>
  A model of CPython's \<open>_strptime\<close>, restricted to the directives \<open>%d %m %Y %y %H %M %S\<close>. The
  format becomes a regular expression: a directive becomes its group of alternatives, a run
  of white space becomes \<open>\s+\<close>, any other character stands for itself (compared ignoring
  case); \<open>re.match\<close> returns the first match of the backtracking search, which tries the
  alternatives of a group from left to right and the longest run of white space first. The
  data must be used up by that match, and the fields must form a date and a time that
  exist. Every failure is a \<open>ValueError\<close>.
\<close>

datatype directive = Dir_d | Dir_m | Dir_Y | Dir_y | Dir_H | Dir_M | Dir_S

datatype fmt_item = Directive directive | Literal char | Whitespace

fun directive_of :: "char \<Rightarrow> directive option" where
  "directive_of c =
     map_of [(CHR ''d'', Dir_d), (CHR ''m'', Dir_m), (CHR ''Y'', Dir_Y), (CHR ''y'', Dir_y),
             (CHR ''H'', Dir_H), (CHR ''M'', Dir_M), (CHR ''S'', Dir_S)] c"

function parse_format :: "string \<Rightarrow> py_error + fmt_item list" where
  "parse_format [] = Inr []"
| "parse_format (c # cs) =
     (if c = CHR ''%'' then
        (case cs of
           [] \<Rightarrow> Inl (ValueError ''stray % in format'')
         | d # rest \<Rightarrow>
             (case directive_of d of
                None \<Rightarrow> Inl (ValueError ''bad directive in format'')
              | Some dir \<Rightarrow>
                  (case parse_format rest of
                     Inl e \<Rightarrow> Inl e
                   | Inr items \<Rightarrow> Inr (Directive dir # items))))
      else if is_space c then
        (case parse_format (dropWhile is_space cs) of
           Inl e \<Rightarrow> Inl e
         | Inr items \<Rightarrow> Inr (Whitespace # items))
      else
        (case parse_format cs of
           Inl e \<Rightarrow> Inl e
         | Inr items \<Rightarrow> Inr (Literal c # items)))"
  by pat_completeness auto
termination
  by (relation "measure length") (auto simp: le_imp_less_Suc length_dropWhile_le)

text \<open>The alternatives of each group, as lists of character classes:
  \<open>%d\<close> is \<open>3[0-1]|[1-2]\d|0[1-9]|[1-9]| [1-9]\<close>, \<open>%m\<close> is \<open>1[0-2]|0[1-9]|[1-9]\<close>,
  \<open>%Y\<close> is \<open>\d\d\d\d\<close>, \<open>%y\<close> is \<open>\d\d\<close>, \<open>%H\<close> is \<open>2[0-3]|[0-1]\d|\d\<close>,
  \<open>%M\<close> is \<open>[0-5]\d|\d\<close>, \<open>%S\<close> is \<open>6[0-1]|[0-5]\d|\d\<close>.\<close>

fun alternatives :: "directive \<Rightarrow> string list list" where
  "alternatives Dir_d =
     [[''3'', ''01''], [''12'', ''0123456789''], [''0'', ''123456789''], [''123456789''],
      ['' '', ''123456789'']]"
| "alternatives Dir_m = [[''1'', ''012''], [''0'', ''123456789''], [''123456789'']]"
| "alternatives Dir_Y = [[''0123456789'', ''0123456789'', ''0123456789'', ''0123456789'']]"
| "alternatives Dir_y = [[''0123456789'', ''0123456789'']]"
| "alternatives Dir_H = [[''2'', ''0123''], [''01'', ''0123456789''], [''0123456789'']]"
| "alternatives Dir_M = [[''012345'', ''0123456789''], [''0123456789'']]"
| "alternatives Dir_S = [[''6'', ''01''], [''012345'', ''0123456789''], [''0123456789'']]"

fun match_classes :: "string list \<Rightarrow> string \<Rightarrow> (string \<times> string) option" where
  "match_classes [] s = Some ([], s)"
| "match_classes (cls # rest) [] = None"
| "match_classes (cls # rest) (c # s) =
     (if c \<in> set cls
      then (case match_classes rest s of None \<Rightarrow> None | Some (m, r) \<Rightarrow> Some (c # m, r))
      else None)"

text \<open>Every way an item can match at the head of the data, in the order the search tries
  them: the fields it sets and the data left. \<open>int\<close> ignores the blank of \<open>%d\<close>.\<close>

fun item_matches :: "fmt_item \<Rightarrow> string \<Rightarrow> ((directive \<times> nat) list \<times> string) list" where
  "item_matches (Directive d) s =
     concat (map (\<lambda>alt. case match_classes alt s of
                           None \<Rightarrow> []
                         | Some (m, r) \<Rightarrow> [([(d, digits_value (filter is_digit m))], r)])
                 (alternatives d))"
| "item_matches (Literal c) s =
     (case s of
        [] \<Rightarrow> []
      | x # r \<Rightarrow> if lower_char x = lower_char c then [([], r)] else [])"
| "item_matches Whitespace s =
     map (\<lambda>k. ([], drop k s)) (rev [1..<Suc (length (takeWhile is_space s))])"

fun match_items :: "fmt_item list \<Rightarrow> string \<Rightarrow> ((directive \<times> nat) list \<times> string) list" where
  "match_items [] s = [([], s)]"
| "match_items (it # its) s =
     concat (map (\<lambda>(vs, r). map (\<lambda>(ws, r'). (vs @ ws, r')) (match_items its r))
                 (item_matches it s))"

definition leap_year :: "nat \<Rightarrow> bool" where
  "leap_year y = (y mod 4 = 0 \<and> (y mod 100 \<noteq> 0 \<or> y mod 400 = 0))"

definition days_in_month :: "nat \<Rightarrow> nat \<Rightarrow> nat" where
  "days_in_month y m =
     (if m = 2 then (if leap_year y then 29 else 28)
      else if m \<in> set [4, 6, 9, 11] then 30 else 31)"

fun set_field :: "datetime \<Rightarrow> directive \<times> nat \<Rightarrow> datetime" where
  "set_field dt (Dir_d, v) = dt\<lparr>day := v\<rparr>"
| "set_field dt (Dir_m, v) = dt\<lparr>month := v\<rparr>"
| "set_field dt (Dir_Y, v) = dt\<lparr>year := v\<rparr>"
| "set_field dt (Dir_y, v) = dt\<lparr>year := (if v \<le> 68 then 2000 + v else 1900 + v)\<rparr>"
| "set_field dt (Dir_H, v) = dt\<lparr>hour := v\<rparr>"
| "set_field dt (Dir_M, v) = dt\<lparr>minute := v\<rparr>"
| "set_field dt (Dir_S, v) = dt\<lparr>second := v\<rparr>"

definition build_datetime :: "(directive \<times> nat) list \<Rightarrow> py_error + datetime" where
  "build_datetime found =
     (let dt = foldl set_field
                 \<lparr>year = 1900, month = 1, day = 1, hour = 0, minute = 0, second = 0\<rparr> found
      in if year dt < 1 then Inl (ValueError ''year is out of range'')
         else if day dt < 1 \<or> day dt > days_in_month (year dt) (month dt)
         then Inl (ValueError ''day is out of range for month'')
         else if second dt > 59 then Inl (ValueError ''second must be in 0..59'')
         else Inr dt)"

definition strptime :: "string \<Rightarrow> string \<Rightarrow> py_error + datetime" where
  "strptime data_string format =
     (case parse_format format of
        Inl e \<Rightarrow> Inl e
      | Inr items \<Rightarrow>
          (case match_items items data_string of
             [] \<Rightarrow> Inl (ValueError ''time data does not match format'')
           | (found, rest) # others \<Rightarrow>
               if rest \<noteq> [] then Inl (ValueError ''unconverted data remains'')
               else build_datetime found))"

section \<open>\<open>parse_dates\<close> (lines 363 to 426)\<close>

definition date_formats :: "string list" where
  "date_formats =
     [''%d/%m/%Y %H:%M'', ''%d/%m/%y %H:%M:%S'', ''%d/%m/%Y %H:%M:%S'', ''%Y-%m-%d %H:%M:%S'',
      ''%d/%m/%y %H:%M'', ''%d-%m-%Y'', ''%d/%m/%Y'', ''%d/%m/%y'']"

text \<open>Lines 407 to 421: the formats in turn. A \<open>ValueError\<close> moves on to the next format,
  any other exception is caught by the outer handler and gives \<open>NaT\<close>, and so does the
  \<open>else\<close> of the loop when no format is left.\<close>

fun try_formats :: "string \<Rightarrow> string list \<Rightarrow> cell" where
  "try_formats date_str [] = Absent"
| "try_formats date_str (fmt # fmts) =
     (case strptime date_str fmt of
        Inr parsed_date \<Rightarrow> Stamp parsed_date
      | Inl (ValueError msg) \<Rightarrow> try_formats date_str fmts
      | Inl e \<Rightarrow> Absent)"

text \<open>Lines 388 to 421: the body of the loop over the column.\<close>

definition parse_date_cell :: "cell \<Rightarrow> cell" where
  "parse_date_cell date_str =
     (if \<not> notna date_str \<or> date_str = Text ''NaT'' then Absent
      else try_formats (py_str date_str) date_formats)"

text \<open>What a cell of the column becomes: lines 378 to 382, then the loop body.\<close>

definition normalize_date :: "cell \<Rightarrow> cell" where
  "normalize_date c =
     parse_date_cell (replace_text [] Absent (replace_text ''nan'' Absent (astype_str c)))"

definition parse_dates :: "dataframe \<Rightarrow> dataframe" where
  "parse_dates df =
     (if ''Date/Time'' \<in> set (df_columns df)
      then (let df = map_column ''Date/Time'' astype_str df;
                df = map_column ''Date/Time'' (replace_text ''nan'' Absent) df;
                df = map_column ''Date/Time'' (replace_text [] Absent) df
            in map_column ''Date/Time'' parse_date_cell df)
      else df)"

section \<open>\<open>filter_out_savings\<close> (lines 428 to 467)\<close>

text \<open>Line 453 and 454: the rows whose description, lowered, does not contain \<open>savings\<close>.
  The column holds texts by then, so the statement in the \<open>try\<close> does not fail and the
  fallback of lines 455 to 465 is not reached.\<close>

definition keep_rows :: "(cell list \<Rightarrow> bool) \<Rightarrow> dataframe \<Rightarrow> dataframe" where
  "keep_rows keep df = df\<lparr>df_rows := filter keep (df_rows df)\<rparr>"

definition description_block :: "dataframe \<Rightarrow> dataframe" where
  "description_block df =
     (let df = map_column ''Description'' (fillna (Text [])) df;
          df = map_column ''Description'' astype_str df
      in map_column ''Description'' (replace_text ''nan'' (Text [])) df)"

definition savings_mask :: "dataframe \<Rightarrow> cell list \<Rightarrow> bool" where
  "savings_mask df r =
     (case column_index ''Description'' df of
        None \<Rightarrow> True
      | Some i \<Rightarrow> \<not> py_in ''savings'' (py_lower (py_str (r ! i))))"

definition filter_out_savings :: "dataframe \<Rightarrow> dataframe" where
  "filter_out_savings df =
     (if ''Description'' \<in> set (df_columns df)
      then (let df = description_block df in keep_rows (savings_mask df) df)
      else df)"

section \<open>Frames as objects: the transforms on a store\<close>

text \<open>
  A frame is a mutable object. The store is the list of the frames allocated so far and an
  address is a position in it. \<open>df.copy()\<close> and \<open>df[mask]\<close> allocate a new frame; an
  assignment \<open>df[name] = ...\<close> changes the frame at the address \<open>df\<close> holds. Each transform
  takes the store and the address of its argument and returns the store and the address of
  its result.
\<close>

type_synonym store = "dataframe list"

definition df_copy :: "store \<Rightarrow> nat \<Rightarrow> store \<times> nat" where
  "df_copy st a = (st @ [st ! a], length st)"

definition df_alloc :: "store \<Rightarrow> dataframe \<Rightarrow> store \<times> nat" where
  "df_alloc st d = (st @ [d], length st)"

definition df_assign :: "store \<Rightarrow> nat \<Rightarrow> (dataframe \<Rightarrow> dataframe) \<Rightarrow> store" where
  "df_assign st a f = st[a := f (st ! a)]"

definition clean_money_columns_on :: "(rat \<Rightarrow> string) \<Rightarrow> store \<Rightarrow> nat \<Rightarrow> store \<times> nat" where
  "clean_money_columns_on fstr st a =
     (let (st, df) = df_copy st a;
          st = df_assign st df (money_block ''Money In'' clean_money_in fstr);
          st = df_assign st df (money_block ''Money out'' clean_money_out fstr);
          st = df_assign st df (money_block ''Balance'' clean_balance fstr)
      in (st, df))"

definition parse_dates_on :: "store \<Rightarrow> nat \<Rightarrow> store \<times> nat" where
  "parse_dates_on st a =
     (let (st, df) = df_copy st a;
          st = df_assign st df parse_dates
      in (st, df))"

definition filter_out_savings_on :: "store \<Rightarrow> nat \<Rightarrow> store \<times> nat" where
  "filter_out_savings_on st a =
     (let (st, df) = df_copy st a
      in if ''Description'' \<in> set (df_columns (st ! df))
         then (let st = df_assign st df description_block
               in df_alloc st (keep_rows (savings_mask (st ! df)) (st ! df)))
         else (st, df))"

section \<open>Predicates and sample inputs used to state the properties\<close>

text \<open>Date-like and money-like content of a cell, read case-insensitively.\<close>

definition date_like :: "cell \<Rightarrow> bool" where
  "date_like c =
     (py_in ''date'' (py_lower (py_str c)) \<or> py_in ''time'' (py_lower (py_str c)) \<or>
      py_in ''date/time'' (py_lower (py_str c)))"

definition money_like :: "cell \<Rightarrow> bool" where
  "money_like c =
     (py_in ''money'' (py_lower (py_str c)) \<or> py_in ''balance'' (py_lower (py_str c)))"

definition grid_two_rows :: grid where
  "grid_two_rows = [[Text ''Date'', Text ''Money''], [Text ''Date/Time'', Text ''Amount'']]"

definition grid_sixteen_rows :: grid where
  "grid_sixteen_rows =
     [[Text ''Date/Time'', Text ''Money In'']] @ replicate 14 [Absent, Absent, Absent] @
     [[Absent, Absent, Text ''Date/Time'']]"

definition grid_stamp :: grid where
  "grid_stamp =
     replicate 15 [Absent, Absent, Absent] @ [[Absent, Absent, Text ''Date/Time stamp'']]"

definition grid_no_dates :: grid where
  "grid_no_dates =
     [[Text ''Kuda statement'', Absent, Absent],
      [Text ''Closing Balance'', Number 100 ''100'', Absent]] @
     replicate 13 [Absent, Absent, Absent] @
     [[Text ''Total'', Absent, Text ''Amount'']]"

definition header_two_balances :: "cell list" where
  "header_two_balances = [Text ''Balance'', Text ''Date/Time'', Text ''Balance'']"

definition header_closing_balance :: "cell list" where
  "header_closing_balance = [Text ''Balance'', Text ''Closing Balance'']"



definition grid_small :: grid where
  "grid_small =
     [[Text ''Account Number'', Text ''1100050449'', Absent],
      [Text ''Date/Time'', Text ''Note'', Text ''Money In''],
      [Text ''10/01/20 21:12:38'', Text ''a'', Number 5 ''5''],
      [Text ''16/01/20 09:22:35'', Text ''b'', Text (naira @ ''1,234.56'')],
      [Text ''10/01/20 21:12:38'', Text ''a'', Number 5 ''5'']]"

text \<open>The text of a description with an absent or \<open>nan\<close> description read as empty, and
  sample frames.\<close>

definition description_text :: "cell \<Rightarrow> string" where
  "description_text c = (if notna c \<and> py_str c \<noteq> ''nan'' then py_str c else [])"

definition no_attrs :: metadata where
  "no_attrs = \<lparr>account_number = None, closing_balance = None, summary_in = None, summary_out = None\<rparr>"

definition savings_example :: dataframe where
  "savings_example =
     \<lparr>df_columns = [''Description''],
      df_rows = [[Text ''Savings top-up''], [Text ''Rent payment''], [Text ''SAVINGS withdrawal'']],
      df_attrs = no_attrs\<rparr>"

definition statement_example :: dataframe where
  "statement_example =
     \<lparr>df_columns = [''Date/Time'', ''Money In'', ''Description''],
      df_rows = [[Text ''16/01/20 09:22:35'', Text (naira @ ''1,234.56''), Text ''Savings top-up''],
                 [Text ''not a date'', Number (-5) ''-5.0'', Absent]],
      df_attrs = no_attrs\<rparr>"

section \<open>Facts about strings and the header search\<close>

lemma py_in_sublist: "py_in p s = sublist p s"
  by (induction s) (auto simp: sublist_Cons_right)

lemma lower_char_idem: "lower_char (lower_char c) = lower_char c"
  by (auto simp: lower_char_def split: option.splits if_splits)

lemma py_lower_idem: "py_lower (py_lower s) = py_lower s"
  by (simp add: py_lower_def lower_char_idem)

lemma general_search_None:
  "general_search i g = None \<longleftrightarrow> (\<forall>row\<in>set g. \<not> exact_row row \<and> \<not> alt_row row)"
  by (induction g arbitrary: i) auto

lemma general_search_first:
  "k < length g \<Longrightarrow> exact_row (g ! k) \<or> alt_row (g ! k) \<Longrightarrow>
   \<forall>j<k. \<not> exact_row (g ! j) \<and> \<not> alt_row (g ! j) \<Longrightarrow>
   general_search i g = Some (i + k)"
proof (induction g arbitrary: i k)
  case Nil
  then show ?case by simp
next
  case (Cons row rest)
  show ?case
  proof (cases k)
    case 0
    with Cons.prems show ?thesis by auto
  next
    case (Suc k')
    from Cons.prems Suc have miss: "\<not> exact_row row" "\<not> alt_row row" by auto
    have "general_search (Suc i) rest = Some (Suc i + k')"
    proof (rule Cons.IH)
      show "k' < length rest" using Cons.prems Suc by simp
      show "exact_row (rest ! k') \<or> alt_row (rest ! k')" using Cons.prems Suc by simp
      show "\<forall>j<k'. \<not> exact_row (rest ! j) \<and> \<not> alt_row (rest ! j)"
        using Cons.prems(3) Suc by auto
    qed
    with miss Suc show ?thesis by simp
  qed
qed

lemma general_search_Some:
  "general_search i g = Some h \<Longrightarrow>
   i \<le> h \<and> h - i < length g \<and> (exact_row (g ! (h - i)) \<or> alt_row (g ! (h - i))) \<and>
   (\<forall>j<h - i. \<not> exact_row (g ! j) \<and> \<not> alt_row (g ! j))"
proof (induction g arbitrary: i)
  case Nil
  then show ?case by simp
next
  case (Cons row rest)
  show ?case
  proof (cases "exact_row row \<or> alt_row row")
    case True
    with Cons.prems have "h = i" by (auto split: if_splits)
    with True show ?thesis by simp
  next
    case False
    with Cons.prems have rec: "general_search (Suc i) rest = Some h" by auto
    from Cons.IH[OF rec] have ih: "Suc i \<le> h" "h - Suc i < length rest"
      "exact_row (rest ! (h - Suc i)) \<or> alt_row (rest ! (h - Suc i))"
      "\<forall>j<h - Suc i. \<not> exact_row (rest ! j) \<and> \<not> alt_row (rest ! j)" by auto
    from ih(1) have eq: "h - i = Suc (h - Suc i)" by simp
    have "\<forall>j<h - i. \<not> exact_row ((row # rest) ! j) \<and> \<not> alt_row ((row # rest) ! j)"
    proof (intro allI impI)
      fix j assume "j < h - i"
      then show "\<not> exact_row ((row # rest) ! j) \<and> \<not> alt_row ((row # rest) ! j)"
        using False ih(4) eq by (cases j) auto
    qed
    with ih eq show ?thesis by simp
  qed
qed

lemma partial_search_None:
  "partial_search i g = None \<longleftrightarrow> (\<forall>row\<in>set g. \<not> partial_row row)"
  by (induction g arbitrary: i) auto

lemma partial_search_Some:
  "partial_search i g = Some h \<Longrightarrow> i \<le> h \<and> h < i + length g"
  by (induction i g rule: partial_search.induct) (auto split: if_splits)

lemma py_in_join:
  assumes "CHR '' '' \<notin> set p" "p \<noteq> []" "py_in p (py_join '' '' xs)"
  shows "\<exists>x\<in>set xs. py_in p x"
  using assms(3)
proof (induction xs rule: induct_list012)
  case 1
  with assms(2) show ?case by simp
next
  case (2 x)
  then show ?case by simp
next
  case More: (3 x y ys)
  from More.prems have "sublist p (x @ ('' '' @ py_join '' '' (y # ys)))"
    by (simp add: py_in_sublist)
  then consider "sublist p x" | "sublist p ('' '' @ py_join '' '' (y # ys))"
    | xs1 xs2 where "p = xs1 @ xs2" "suffix xs1 x" "prefix xs2 ('' '' @ py_join '' '' (y # ys))"
    unfolding sublist_append by blast
  then show ?case
  proof cases
    case 1
    then show ?thesis by (auto simp: py_in_sublist)
  next
    case 2
    then have "prefix p (CHR '' '' # py_join '' '' (y # ys)) \<or> sublist p (py_join '' '' (y # ys))"
      by (simp add: sublist_Cons_right)
    moreover have "\<not> prefix p (CHR '' '' # py_join '' '' (y # ys))"
      using assms(1,2) by (cases p) auto
    ultimately have "py_in p (py_join '' '' (y # ys))" by (simp add: py_in_sublist)
    with More.IH(2) show ?thesis by auto
  next
    case 3
    show ?thesis
    proof (cases xs2)
      case Nil
      with 3 have "suffix p x" by simp
      then have "sublist p x" by (rule suffix_imp_sublist)
      then show ?thesis by (auto simp: py_in_sublist)
    next
      case (Cons c cs)
      with 3(3) have "c = CHR '' ''" by simp
      with 3(1) Cons assms(1) show ?thesis by simp
    qed
  qed
qed

section \<open>Header Locator: stage order and the positional fast path\<close>

lemma locate_header_general:
  "positional_check g = None \<Longrightarrow> general_search 0 g = Some h \<Longrightarrow> locate_header g = Inr h"
  by (simp add: locate_header_def)

text \<open>
  C1 (as amended). The exact keyword test and the co-occurrence test are made row by row in
  one loop. For every grid with no positional match at row 15 in which some row holds a cell
  case-insensitively equal to \<open>date/time\<close>, the locator returns the first row that holds such a
  cell or holds both a \<open>date\<close> cell and a \<open>money\<close> cell; this is the first exact-match row
  exactly when no earlier row holds both a \<open>date\<close> cell and a \<open>money\<close> cell.
\<close>

theorem header_search_first_candidate:
  assumes "positional_check g = None" and "k < length g" and "exact_row (g ! k)"
    and "\<forall>j<k. \<not> exact_row (g ! j)"
  shows "\<exists>h. locate_header g = Inr h \<and> h \<le> k \<and>
             (exact_row (g ! h) \<or> alt_row (g ! h)) \<and>
             (\<forall>j<h. \<not> exact_row (g ! j) \<and> \<not> alt_row (g ! j)) \<and>
             (h = k \<longleftrightarrow> (\<forall>j<k. \<not> alt_row (g ! j)))"
proof -
  from assms(2,3) have "\<not> (\<forall>row\<in>set g. \<not> exact_row row \<and> \<not> alt_row row)"
    using nth_mem by blast
  then obtain h where h: "general_search 0 g = Some h"
    using general_search_None[of 0 g] by (cases "general_search 0 g") auto
  from general_search_Some[OF h] have props: "h < length g"
    "exact_row (g ! h) \<or> alt_row (g ! h)"
    "\<forall>j<h. \<not> exact_row (g ! j) \<and> \<not> alt_row (g ! j)" by auto
  have le: "h \<le> k"
  proof (rule ccontr)
    assume "\<not> h \<le> k"
    then have "k < h" by simp
    with props(3) assms(3) show False by blast
  qed
  have iff: "h = k \<longleftrightarrow> (\<forall>j<k. \<not> alt_row (g ! j))"
  proof
    assume "h = k"
    with props(3) show "\<forall>j<k. \<not> alt_row (g ! j)" by blast
  next
    assume none: "\<forall>j<k. \<not> alt_row (g ! j)"
    show "h = k"
    proof (rule ccontr)
      assume "h \<noteq> k"
      with le have "h < k" by simp
      with none assms(4) props(2) show False by blast
    qed
  qed
  from locate_header_general[OF assms(1) h] props le iff show ?thesis by blast
qed

lemma grid_two_rows_eval:
  "positional_check grid_two_rows = None" "exact_row (grid_two_rows ! 1)"
  "\<not> exact_row (grid_two_rows ! 0)" "alt_row (grid_two_rows ! 0)"
  by (simp_all add: grid_two_rows_def positional_check_def exact_row_def alt_row_def row_str_def
      py_lower_def lower_char_def)

text \<open>The theorem at a two-row grid whose first row has \<open>Date\<close> and \<open>Money\<close> cells and whose
  second row has the exact \<open>Date/Time\<close> cell.\<close>

theorem header_search_first_candidate_witness:
  "\<exists>h. locate_header grid_two_rows = Inr h \<and> h \<le> 1 \<and>
       (exact_row (grid_two_rows ! h) \<or> alt_row (grid_two_rows ! h)) \<and>
       (\<forall>j<h. \<not> exact_row (grid_two_rows ! j) \<and> \<not> alt_row (grid_two_rows ! j)) \<and>
       (h = 1 \<longleftrightarrow> (\<forall>j<1. \<not> alt_row (grid_two_rows ! j)))"
proof -
  have len: "1 < length grid_two_rows" by (simp add: grid_two_rows_def)
  have first: "\<forall>j<1. \<not> exact_row (grid_two_rows ! j)"
    using grid_two_rows_eval(3) by simp
  show ?thesis
    by (rule header_search_first_candidate[OF grid_two_rows_eval(1) len grid_two_rows_eval(2) first])
qed

text \<open>
  C1 as stated fails: in that grid there is no row 15, row 1 is the first row with an exact
  \<open>date/time\<close> cell, and the locator returns row 0.
\<close>

theorem exact_scan_priority_counterexample:
  "length grid_two_rows \<le> 15 \<and> positional_check grid_two_rows = None \<and>
   \<not> exact_row (grid_two_rows ! 0) \<and> exact_row (grid_two_rows ! 1) \<and>
   locate_header grid_two_rows = Inr 0 \<and> locate_header grid_two_rows \<noteq> Inr 1"
  by (simp add: grid_two_rows_def positional_check_def exact_row_def alt_row_def row_str_def
      py_lower_def lower_char_def locate_header_def)

text \<open>
  C2. For every grid with a row at index 15 whose cell at column index 2 is
  case-insensitively equal to \<open>date/time\<close>, the locator returns 15, whatever the other rows
  and cells hold.
\<close>

theorem positional_fast_path:
  assumes "length g > 15" and "length (g ! 15) > 2"
    and "py_lower (py_str (g ! 15 ! 2)) = ''date/time''"
  shows "locate_header g = Inr 15"
proof -
  have "py_in ''date/time'' (py_lower (py_str (g ! 15 ! 2)))"
    unfolding assms(3) by simp
  with assms(1,2) have "positional_check g = Some 15"
    by (simp add: positional_check_def)
  then show ?thesis by (simp add: locate_header_def)
qed

lemma grid_sixteen_rows_nth: "grid_sixteen_rows ! 15 = [Absent, Absent, Text ''Date/Time'']"
  by (simp add: grid_sixteen_rows_def nth_append)

text \<open>The theorem at a sixteen-row grid whose row 0 already has an exact \<open>Date/Time\<close> cell.\<close>

theorem positional_fast_path_witness:
  "exact_row (grid_sixteen_rows ! 0) \<and> locate_header grid_sixteen_rows = Inr 15"
proof -
  have "length grid_sixteen_rows > 15" by (simp add: grid_sixteen_rows_def)
  moreover have "length (grid_sixteen_rows ! 15) > 2" by (simp add: grid_sixteen_rows_nth)
  moreover have "py_lower (py_str (grid_sixteen_rows ! 15 ! 2)) = ''date/time''"
    by (simp add: grid_sixteen_rows_nth py_lower_def lower_char_def)
  ultimately have "locate_header grid_sixteen_rows = Inr 15"
    by (rule positional_fast_path)
  moreover have "exact_row (grid_sixteen_rows ! 0)"
    by (simp add: grid_sixteen_rows_def exact_row_def row_str_def py_lower_def lower_char_def)
  ultimately show ?thesis by simp
qed

section \<open>Header Locator: the failure when no header row exists\<close>

lemma exact_row_cell:
  "exact_row row \<longleftrightarrow> (\<exists>c\<in>set row. py_lower (py_str c) = ''date/time'')"
  by (auto simp: exact_row_def row_str_def list_ex_iff py_lower_idem)

lemma alt_row_like: "alt_row row \<Longrightarrow> list_ex date_like row \<and> list_ex money_like row"
  by (auto simp: alt_row_def row_str_def list_ex_iff py_lower_idem date_like_def money_like_def)

lemma partial_row_like:
  assumes "partial_row row"
  shows "list_ex date_like row \<and> list_ex money_like row"
proof -
  define rv where "rv = map (\<lambda>x. py_lower (py_str x)) (filter notna row)"
  have cells: "\<And>x. x \<in> set rv \<Longrightarrow> \<exists>c\<in>set row. x = py_lower (py_str c)"
    by (auto simp: rv_def)
  from assms have d: "''date'' \<in> set rv \<or> ''time'' \<in> set rv \<or> py_in ''date/time'' (py_join '' '' rv)"
    and m: "py_in ''money'' (py_join '' '' rv) \<or> py_in ''balance'' (py_join '' '' rv)"
    by (simp_all add: partial_row_def rv_def Let_def)
  have "\<exists>c\<in>set row. date_like c"
  proof -
    from d consider "''date'' \<in> set rv" | "''time'' \<in> set rv"
      | "py_in ''date/time'' (py_join '' '' rv)" by blast
    then show ?thesis
    proof cases
      case 1
      from cells[OF 1] obtain c where c: "c \<in> set row" "py_lower (py_str c) = ''date''" by auto
      have "date_like c" unfolding date_like_def c(2) by simp
      with c(1) show ?thesis by blast
    next
      case 2
      from cells[OF 2] obtain c where c: "c \<in> set row" "py_lower (py_str c) = ''time''" by auto
      have "date_like c" unfolding date_like_def c(2) by simp
      with c(1) show ?thesis by blast
    next
      case 3
      have "\<exists>x\<in>set rv. py_in ''date/time'' x"
        by (rule py_in_join[OF _ _ 3]) simp_all
      then obtain x where "x \<in> set rv" "py_in ''date/time'' x" by blast
      with cells show ?thesis by (auto simp: date_like_def)
    qed
  qed
  moreover have "\<exists>c\<in>set row. money_like c"
  proof -
    from m show ?thesis
    proof
      assume 1: "py_in ''money'' (py_join '' '' rv)"
      have "\<exists>x\<in>set rv. py_in ''money'' x"
        by (rule py_in_join[OF _ _ 1]) simp_all
      then obtain x where "x \<in> set rv" "py_in ''money'' x" by blast
      with cells show ?thesis by (auto simp: money_like_def)
    next
      assume 1: "py_in ''balance'' (py_join '' '' rv)"
      have "\<exists>x\<in>set rv. py_in ''balance'' x"
        by (rule py_in_join[OF _ _ 1]) simp_all
      then obtain x where "x \<in> set rv" "py_in ''balance'' x" by blast
      with cells show ?thesis by (auto simp: money_like_def)
    qed
  qed
  ultimately show ?thesis by (simp add: list_ex_iff)
qed

lemma locate_header_none:
  "positional_check g = None \<Longrightarrow> general_search 0 g = None \<Longrightarrow> partial_search 0 g = None \<Longrightarrow>
   locate_header g = Inl (ValueError header_not_found_msg)"
  by (simp add: locate_header_def)

lemma process_kuda_excel_header_error:
  "locate_header g = Inl (ValueError msg) \<Longrightarrow>
   process_kuda_excel g = Inl (PyException (''Error processing Kuda Bank Excel file: '' @ msg))"
  by (simp add: process_kuda_excel_def process_body_def)

text \<open>
  C3 (as amended). For every grid in which no row holds date/time-like content (\<open>date\<close>,
  \<open>time\<close>, \<open>date/time\<close>) together with money-like content (\<open>money\<close>, \<open>balance\<close>), no cell is
  case-insensitively equal to \<open>date/time\<close>, and the cell at row 15, column 2 (when there is
  one) does not contain \<open>date/time\<close>, the Header Locator fails with the header-not-found
  error, the \<open>ValueError\<close> of line 95, and the parse returns no table.
\<close>

theorem header_not_found_error:
  assumes "\<forall>row\<in>set g. \<not> (list_ex date_like row \<and> list_ex money_like row)"
    and "\<forall>row\<in>set g. \<forall>c\<in>set row. py_lower (py_str c) \<noteq> ''date/time''"
    and "\<not> (length g > 15 \<and> length (g ! 15) > 2 \<and>
            py_in ''date/time'' (py_lower (py_str (g ! 15 ! 2))))"
  shows "locate_header g = Inl (ValueError header_not_found_msg) \<and>
         isl (process_kuda_excel g)"
proof -
  from assms(3) have pos: "positional_check g = None"
    by (auto simp: positional_check_def Let_def)
  have gen: "general_search 0 g = None"
    unfolding general_search_None using assms(1,2) alt_row_like exact_row_cell by blast
  have par: "partial_search 0 g = None"
    unfolding partial_search_None using assms(1) partial_row_like by blast
  have loc: "locate_header g = Inl (ValueError header_not_found_msg)"
    by (rule locate_header_none[OF pos gen par])
  from process_kuda_excel_header_error[OF loc] have "isl (process_kuda_excel g)" by simp
  with loc show ?thesis by simp
qed

text \<open>The theorem at a sixteen-row grid with a balance line, no date anywhere and the text
  \<open>Amount\<close> at row 15, column 2.\<close>

theorem header_not_found_error_witness:
  "length grid_no_dates > 15 \<and> length (grid_no_dates ! 15) > 2 \<and>
   locate_header grid_no_dates = Inl (ValueError header_not_found_msg) \<and>
   isl (process_kuda_excel grid_no_dates)"
proof -
  have "list_all (\<lambda>row. \<not> (list_ex date_like row \<and> list_ex money_like row)) grid_no_dates"
    by code_simp
  then have h1: "\<forall>row\<in>set grid_no_dates. \<not> (list_ex date_like row \<and> list_ex money_like row)"
    by (simp only: list_all_iff)
  have "list_all (\<lambda>row. list_all (\<lambda>c. py_lower (py_str c) \<noteq> ''date/time'') row) grid_no_dates"
    by code_simp
  then have h2: "\<forall>row\<in>set grid_no_dates. \<forall>c\<in>set row. py_lower (py_str c) \<noteq> ''date/time''"
    by (simp only: list_all_iff)
  have h3: "\<not> (length grid_no_dates > 15 \<and> length (grid_no_dates ! 15) > 2 \<and>
            py_in ''date/time'' (py_lower (py_str (grid_no_dates ! 15 ! 2))))"
    by code_simp
  have len: "length grid_no_dates > 15 \<and> length (grid_no_dates ! 15) > 2"
    by code_simp
  from header_not_found_error[OF h1 h2 h3] len show ?thesis by simp
qed

text \<open>
  C3 as stated fails: a sixteen-row grid whose only text is \<open>Date/Time stamp\<close> at row 15,
  column 2 has no money-like content and no cell equal to \<open>date/time\<close>, yet the positional
  test, a substring test, accepts row 15 and an (empty) table is returned.
\<close>

theorem header_not_found_counterexample:
  "list_all (\<lambda>row. \<not> (list_ex date_like row \<and> list_ex money_like row)) grid_stamp \<and>
   list_all (\<lambda>row. list_all (\<lambda>c. py_lower (py_str c) \<noteq> ''date/time'') row) grid_stamp \<and>
   process_kuda_excel grid_stamp =
     Inr \<lparr>df_columns = required_columns_list, df_rows = [],
          df_attrs = \<lparr>account_number = None, closing_balance = None,
                      summary_in = None, summary_out = None\<rparr>\<rparr>"
  by code_simp

section \<open>Column Mapper: which occurrence a canonical name is mapped to\<close>

lemma find_append: "find P (xs @ ys) = (case find P xs of Some x \<Rightarrow> Some x | None \<Rightarrow> find P ys)"
  by (induction xs) auto

lemma find_map: "find P (map f xs) = map_option f (find (\<lambda>x. P (f x)) xs)"
  by (induction xs) auto

lemma find_rev_upt_Cons:
  "find (\<lambda>j. P ((c # cs) ! j)) (rev [0..<length (c # cs)]) =
     (case find (\<lambda>j. P (cs ! j)) (rev [0..<length cs]) of
        Some j \<Rightarrow> Some (Suc j)
      | None \<Rightarrow> if P c then Some 0 else None)"
proof -
  have "[0..<Suc (length cs)] = 0 # map Suc [0..<length cs]"
    by (simp add: upt_conv_Cons map_Suc_upt del: upt_Suc)
  then have "rev [0..<Suc (length cs)] = map Suc (rev [0..<length cs]) @ [0]"
    by (simp add: rev_map)
  then show ?thesis
    by (simp add: find_append find_map split: option.splits)
qed

lemma assign_first_label:
  "assign_first hit keys i ci =
     (case map_option snd (find (\<lambda>(key, name). hit key) keys) of
        Some name \<Rightarrow> AList.update name i ci
      | None \<Rightarrow> ci)"
  by (induction hit keys i ci rule: assign_first.induct) auto

lemma exact_pass_label: "exact_pass i cs ci = label_pass exact_label i cs ci"
  by (induction cs arbitrary: i ci)
     (simp_all add: assign_first_label exact_label_def cell_str_def Let_def)

lemma substring_pass_label: "substring_pass i cs ci = label_pass substring_label i cs ci"
  by (induction cs arbitrary: i ci)
     (simp_all add: assign_first_label substring_label_def cell_str_def Let_def)

lemma label_pass_map_of:
  "map_of (label_pass L i cs ci) name =
     (case find (\<lambda>j. L (cs ! j) = Some name) (rev [0..<length cs]) of
        Some j \<Rightarrow> Some (i + j)
      | None \<Rightarrow> map_of ci name)"
proof (induction cs arbitrary: i ci)
  case Nil
  then show ?case by simp
next
  case (Cons c cs)
  have "map_of (label_pass L i (c # cs) ci) name =
          (case find (\<lambda>j. L (cs ! j) = Some name) (rev [0..<length cs]) of
             Some j \<Rightarrow> Some (Suc i + j)
           | None \<Rightarrow> map_of (case L c of Some n \<Rightarrow> AList.update n i ci | None \<Rightarrow> ci) name)"
    by (simp only: label_pass.simps Cons.IH)
  also have "\<dots> =
          (case (case find (\<lambda>j. L (cs ! j) = Some name) (rev [0..<length cs]) of
                   Some j \<Rightarrow> Some (Suc j)
                 | None \<Rightarrow> if L c = Some name then Some 0 else None) of
             Some j \<Rightarrow> Some (i + j)
           | None \<Rightarrow> map_of ci name)"
    by (auto simp: update_conv' split: option.splits)
  also have "\<dots> =
          (case find (\<lambda>j. L ((c # cs) ! j) = Some name) (rev [0..<length (c # cs)]) of
             Some j \<Rightarrow> Some (i + j)
           | None \<Rightarrow> map_of ci name)"
    by (simp only: find_rev_upt_Cons[of "\<lambda>x. L x = Some name" c cs])
  finally show ?case .
qed

text \<open>
  C4 (as amended). Both passes assign unconditionally, so a later cell replaces the index
  an earlier cell gave to the same canonical name. After the exact pass a canonical name is
  mapped to the last header cell whose lowered and trimmed text equals its synonym (to
  nothing when there is none). The substring pass visits every present cell and maps a
  canonical name to the last cell whose first contained synonym is the synonym of that
  name, replacing any mapping made before, also one made by the exact pass; a name that no
  cell selects in the substring pass keeps the mapping it had. The substring pass runs
  exactly when the exact pass mapped fewer names than there are canonical names.
\<close>

theorem column_mapper_last_occurrence:
  "map_of (exact_pass 0 header_row []) name =
     find (\<lambda>j. exact_label (header_row ! j) = Some name) (rev [0..<length header_row]) \<and>
   map_of (substring_pass 0 header_row column_indices) name =
     (case find (\<lambda>j. substring_label (header_row ! j) = Some name)
             (rev [0..<length header_row]) of
        Some j \<Rightarrow> Some j
      | None \<Rightarrow> map_of column_indices name) \<and>
   map_columns header_row =
     (if length (exact_pass 0 header_row []) < length required_columns
      then substring_pass 0 header_row (exact_pass 0 header_row [])
      else exact_pass 0 header_row [])"
  by (simp add: exact_pass_label substring_pass_label label_pass_map_of map_columns_def Let_def
      split: option.splits)


text \<open>The theorem at two header rows with a repeated label.\<close>

theorem column_mapper_last_occurrence_witness:
  "map_of (exact_pass 0 header_two_balances []) ''Balance'' = Some 2 \<and>
   map_of (substring_pass 0 header_closing_balance (exact_pass 0 header_closing_balance []))
     ''Balance'' = Some 1"
proof -
  have f1: "find (\<lambda>j. exact_label (header_two_balances ! j) = Some ''Balance'')
              (rev [0..<length header_two_balances]) = Some 2"
    by code_simp
  have f2: "find (\<lambda>j. substring_label (header_closing_balance ! j) = Some ''Balance'')
              (rev [0..<length header_closing_balance]) = Some 1"
    by code_simp
  from column_mapper_last_occurrence[of header_two_balances "''Balance''" "[]"] f1
  have "map_of (exact_pass 0 header_two_balances []) ''Balance'' = Some 2" by simp
  moreover
  from column_mapper_last_occurrence[of header_closing_balance "''Balance''"
      "exact_pass 0 header_closing_balance []"] f2
  have "map_of (substring_pass 0 header_closing_balance (exact_pass 0 header_closing_balance []))
          ''Balance'' = Some 1" by simp
  ultimately show ?thesis by simp
qed

text \<open>
  C4 as stated fails. With the header cells \<open>Balance, Date/Time, Balance\<close> the exact pass
  maps \<open>Balance\<close> to index 2, not to the first occurrence 0. With the header cells
  \<open>Balance, Closing Balance\<close> the exact pass maps \<open>Balance\<close> to 0 and the substring pass
  changes that mapping to 1.
\<close>

theorem column_mapper_first_wins_counterexample:
  "exact_label (header_two_balances ! 0) = Some ''Balance'' \<and>
   exact_label (header_two_balances ! 2) = Some ''Balance'' \<and>
   map_of (exact_pass 0 header_two_balances []) ''Balance'' = Some 2 \<and>
   map_of (exact_pass 0 header_closing_balance []) ''Balance'' = Some 0 \<and>
   map_of (map_columns header_closing_balance) ''Balance'' = Some 1"
  by code_simp

section \<open>Metadata Extractor: where the closing balance comes from\<close>









section \<open>Table Builder: the shape of the returned table\<close>

lemma filter_upt_eq: "i < n \<Longrightarrow> filter (\<lambda>j. j = i) [0..<n] = [i]"
proof (induction n)
  case 0
  then show ?case by simp
next
  case (Suc n)
  show ?case
  proof (cases "i = n")
    case True
    have "filter (\<lambda>j. j = n) [0..<n] = []" by (auto simp: filter_empty_conv)
    with True show ?thesis by simp
  next
    case False
    with Suc.prems have "i < n" by simp
    from Suc.IH[OF this] have "filter (\<lambda>j. j = i) [0..<n] = [i]" .
    moreover have "n \<noteq> i" using False by simp
    ultimately show ?thesis by (simp del: upt_Suc add: upt_Suc_append)
  qed
qed

lemma positions_of_unique:
  assumes "p < length names" "names ! p = c" "\<forall>q<length names. names ! q = c \<longrightarrow> q = p"
  shows "positions_of c names = [p]"
proof -
  have "filter (\<lambda>i. names ! i = c) [0..<length names] = filter (\<lambda>j. j = p) [0..<length names]"
  proof (rule filter_cong[OF refl])
    fix x assume "x \<in> set [0..<length names]"
    then have "x < length names" by simp
    with assms show "(names ! x = c) = (x = p)" by blast
  qed
  with assms(1) show ?thesis by (simp add: positions_of_def filter_upt_eq)
qed

lemma fold_add_missing:
  "distinct cols \<Longrightarrow>
   fold add_missing cols df =
     df\<lparr>df_columns := df_columns df @ filter (\<lambda>c. c \<notin> set (df_columns df)) cols,
        df_rows := map (\<lambda>r. r @ replicate (length (filter (\<lambda>c. c \<notin> set (df_columns df)) cols)) Absent)
                       (df_rows df)\<rparr>"
proof (induction cols arbitrary: df)
  case Nil
  then show ?case by simp
next
  case (Cons c cols)
  from Cons.prems have d: "distinct cols" and nc: "c \<notin> set cols" by auto
  show ?case
  proof (cases "c \<in> set (df_columns df)")
    case True
    then have "add_missing c df = df" by (simp add: add_missing_def)
    with True Cons.IH[OF d, of df] show ?thesis by simp
  next
    case False
    let ?df = "df\<lparr>df_columns := df_columns df @ [c], df_rows := map (\<lambda>r. r @ [Absent]) (df_rows df)\<rparr>"
    let ?ms = "filter (\<lambda>x. x \<notin> set (df_columns df)) cols"
    from False have am: "add_missing c df = ?df" by (simp add: add_missing_def)
    have f: "filter (\<lambda>x. x \<notin> set (df_columns ?df)) cols = ?ms"
      using nc by (intro filter_cong) auto
    have "fold add_missing (c # cols) df = fold add_missing cols ?df" by (simp add: am)
    also have "\<dots> = ?df\<lparr>df_columns := df_columns ?df @ ?ms,
        df_rows := map (\<lambda>r. r @ replicate (length ?ms) Absent) (df_rows ?df)\<rparr>"
      using Cons.IH[OF d, of ?df] unfolding f .
    also have "\<dots> = df\<lparr>df_columns := df_columns df @ (c # ?ms),
        df_rows := map (\<lambda>r. r @ replicate (Suc (length ?ms)) Absent) (df_rows df)\<rparr>"
      by simp
    also have "c # ?ms = filter (\<lambda>x. x \<notin> set (df_columns df)) (c # cols)"
      using False by simp
    also have "Suc (length ?ms) = length (filter (\<lambda>x. x \<notin> set (df_columns df)) (c # cols))"
      using False by simp
    finally show ?thesis .
  qed
qed

lemma concat_singletons:
  "\<forall>c\<in>set cols. \<exists>p. f c = [p] \<Longrightarrow> concat (map f cols) = map (\<lambda>c. hd (f c)) cols"
  by (induction cols) auto

lemma build_table:
  assumes d: "distinct cols"
    and m: "\<And>c i. c \<in> set cols \<Longrightarrow> (i < length fc \<and> fc ! i = c) \<longleftrightarrow> M c = Some i"
    and w: "\<forall>r\<in>set rows. length r = length fc"
  shows "select_columns cols (fold add_missing cols \<lparr>df_columns = fc, df_rows = rows, df_attrs = a\<rparr>) =
           Inr \<lparr>df_columns = cols,
                df_rows = map (\<lambda>r. map (\<lambda>c. case M c of Some i \<Rightarrow> r ! i | None \<Rightarrow> Absent) cols) rows,
                df_attrs = a\<rparr>"
proof -
  define missing where "missing = filter (\<lambda>c. c \<notin> set fc) cols"
  define names where "names = fc @ missing"
  define k where "k = length missing"
  have dm: "distinct missing" using d by (simp add: missing_def)
  have fold_eq: "fold add_missing cols \<lparr>df_columns = fc, df_rows = rows, df_attrs = a\<rparr> =
      \<lparr>df_columns = names, df_rows = map (\<lambda>r. r @ replicate k Absent) rows, df_attrs = a\<rparr>"
    by (simp add: fold_add_missing[OF d] names_def missing_def k_def)
  have all_in: "\<forall>c\<in>set cols. c \<in> set names"
    by (auto simp: names_def missing_def)
  have pos: "\<exists>p. positions_of c names = [p] \<and> p < length names \<and> names ! p = c \<and>
      (\<forall>r. length r = length fc \<longrightarrow>
           (r @ replicate k Absent) ! p = (case M c of Some i \<Rightarrow> r ! i | None \<Rightarrow> Absent))"
    if c: "c \<in> set cols" for c
  proof (cases "M c")
    case (Some i)
    with m[OF c, of i] have i: "i < length fc" "fc ! i = c" by auto
    then have cfc: "c \<in> set fc" by (auto simp: in_set_conv_nth)
    have uniq: "\<forall>q<length names. names ! q = c \<longrightarrow> q = i"
    proof (intro allI impI)
      fix q assume q: "q < length names" "names ! q = c"
      show "q = i"
      proof (cases "q < length fc")
        case True
        with q have "fc ! q = c" by (simp add: names_def nth_append)
        with True m[OF c, of q] Some show ?thesis by simp
      next
        case False
        with q have "missing ! (q - length fc) = c" "q - length fc < length missing"
          by (auto simp: names_def nth_append)
        then have "c \<in> set missing" by (auto simp: in_set_conv_nth)
        with cfc show ?thesis by (simp add: missing_def)
      qed
    qed
    have "positions_of c names = [i]"
      by (rule positions_of_unique) (use i uniq in \<open>auto simp: names_def nth_append\<close>)
    moreover have "i < length names" "names ! i = c" using i by (auto simp: names_def nth_append)
    moreover have "\<forall>r. length r = length fc \<longrightarrow>
           (r @ replicate k Absent) ! i = (case M c of Some i \<Rightarrow> r ! i | None \<Rightarrow> Absent)"
      using Some i by (simp add: nth_append)
    ultimately show ?thesis by blast
  next
    case None
    have nfc: "c \<notin> set fc"
    proof
      assume "c \<in> set fc"
      then obtain i where "i < length fc" "fc ! i = c" by (auto simp: in_set_conv_nth)
      with m[OF c, of i] None show False by simp
    qed
    with c have "c \<in> set missing" by (simp add: missing_def)
    then obtain p' where p': "p' < length missing" "missing ! p' = c"
      by (auto simp: in_set_conv_nth)
    let ?p = "length fc + p'"
    have uniq: "\<forall>q<length names. names ! q = c \<longrightarrow> q = ?p"
    proof (intro allI impI)
      fix q assume q: "q < length names" "names ! q = c"
      show "q = ?p"
      proof (cases "q < length fc")
        case True
        with q have "fc ! q = c" by (simp add: names_def nth_append)
        with True nfc show ?thesis by (auto simp: in_set_conv_nth)
      next
        case False
        with q have qq: "missing ! (q - length fc) = c" "q - length fc < length missing"
          by (auto simp: names_def nth_append)
        have "q - length fc = p'"
          using nth_eq_iff_index_eq[OF dm qq(2) p'(1)] qq(1) p'(2) by simp
        with False show ?thesis by simp
      qed
    qed
    have "positions_of c names = [?p]"
      by (rule positions_of_unique) (use p' uniq in \<open>auto simp: names_def nth_append\<close>)
    moreover have "?p < length names" "names ! ?p = c" using p' by (auto simp: names_def nth_append)
    moreover have "\<forall>r. length r = length fc \<longrightarrow>
           (r @ replicate k Absent) ! ?p = (case M c of Some i \<Rightarrow> r ! i | None \<Rightarrow> Absent)"
      using None p' by (simp add: nth_append k_def)
    ultimately show ?thesis by blast
  qed
  have hdp: "names ! hd (positions_of c names) = c \<and>
      (\<forall>r. length r = length fc \<longrightarrow>
           (r @ replicate k Absent) ! hd (positions_of c names) =
           (case M c of Some i \<Rightarrow> r ! i | None \<Rightarrow> Absent))" if "c \<in> set cols" for c
  proof -
    from pos[OF that] obtain p where p: "positions_of c names = [p]" "names ! p = c"
      "\<forall>r. length r = length fc \<longrightarrow>
           (r @ replicate k Absent) ! p = (case M c of Some i \<Rightarrow> r ! i | None \<Rightarrow> Absent)"
      by blast
    then show ?thesis by simp
  qed
  define idxs where "idxs = concat (map (\<lambda>c. positions_of c names) cols)"
  have single: "\<forall>c\<in>set cols. \<exists>p. positions_of c names = [p]"
    using pos by blast
  have idxs: "idxs = map (\<lambda>c. hd (positions_of c names)) cols"
    unfolding idxs_def by (rule concat_singletons[OF single])
  have cols_eq: "map (\<lambda>i. names ! i) idxs = cols"
  proof -
    have "map (\<lambda>c. names ! hd (positions_of c names)) cols = cols"
      by (rule map_idI) (simp add: hdp)
    then show ?thesis by (simp add: idxs comp_def)
  qed
  have rows_eq: "map (\<lambda>r. map (\<lambda>i. r ! i) idxs) (map (\<lambda>r. r @ replicate k Absent) rows) =
      map (\<lambda>r. map (\<lambda>c. case M c of Some i \<Rightarrow> r ! i | None \<Rightarrow> Absent) cols) rows"
  proof -
    have one: "map (\<lambda>i. (r @ replicate k Absent) ! i) idxs =
          map (\<lambda>c. case M c of Some i \<Rightarrow> r ! i | None \<Rightarrow> Absent) cols" if r: "r \<in> set rows" for r
    proof -
      from r w have lr: "length r = length fc" by blast
      have "map (\<lambda>c. (r @ replicate k Absent) ! hd (positions_of c names)) cols =
            map (\<lambda>c. case M c of Some i \<Rightarrow> r ! i | None \<Rightarrow> Absent) cols"
      proof (rule map_cong[OF refl])
        fix c assume "c \<in> set cols"
        from hdp[OF this] lr
        show "(r @ replicate k Absent) ! hd (positions_of c names) =
              (case M c of Some i \<Rightarrow> r ! i | None \<Rightarrow> Absent)" by blast
      qed
      then show ?thesis by (simp add: idxs comp_def)
    qed
    have "map (\<lambda>r. map (\<lambda>i. r ! i) idxs) (map (\<lambda>r. r @ replicate k Absent) rows) =
          map (\<lambda>r. map (\<lambda>i. (r @ replicate k Absent) ! i) idxs) rows"
      by (simp add: comp_def)
    also have "\<dots> = map (\<lambda>r. map (\<lambda>c. case M c of Some i \<Rightarrow> r ! i | None \<Rightarrow> Absent) cols) rows"
      by (rule map_cong[OF refl]) (rule one)
    finally show ?thesis .
  qed
  have nf: "find (\<lambda>c. c \<notin> set names) cols = None"
    using all_in by (simp add: find_None_iff)
  have sel: "select_columns cols
        \<lparr>df_columns = names, df_rows = map (\<lambda>r. r @ replicate k Absent) rows, df_attrs = a\<rparr> =
      Inr \<lparr>df_columns = map (\<lambda>i. names ! i) idxs,
           df_rows = map (\<lambda>r. map (\<lambda>i. r ! i) idxs) (map (\<lambda>r. r @ replicate k Absent) rows),
           df_attrs = a\<rparr>"
    by (simp add: select_columns_def nf idxs_def Let_def)
  show ?thesis
    by (simp only: fold_eq sel cols_eq rows_eq)
qed

lemma locate_header_bound: "locate_header g = Inr h \<Longrightarrow> h < length g"
proof -
  assume a: "locate_header g = Inr h"
  show ?thesis
  proof (cases "positional_check g")
    case (Some p)
    then have "p = 15 \<and> 15 < length g"
      by (auto simp: positional_check_def Let_def split: if_splits)
    with a Some show ?thesis by (simp add: locate_header_def)
  next
    case None
    show ?thesis
    proof (cases "general_search 0 g")
      case (Some p)
      from general_search_Some[OF Some] have "p < length g" by simp
      with a None Some show ?thesis by (simp add: locate_header_def)
    next
      case gn: None
      show ?thesis
      proof (cases "partial_search 0 g")
        case (Some p)
        from partial_search_Some[OF Some] have "p < length g" by simp
        with a None gn Some show ?thesis by (simp add: locate_header_def)
      next
        case pn: None
        with a None gn show ?thesis by (simp add: locate_header_def)
      qed
    qed
  qed
qed

lemma label_pass_distinct:
  "distinct (map fst ci) \<Longrightarrow> distinct (map fst (label_pass L i cs ci))"
  by (induction cs arbitrary: i ci) (auto simp: distinct_update split: option.splits)

lemma find_Some_member: "find P xs = Some x \<Longrightarrow> P x \<and> x \<in> set xs"
  by (induction xs) (auto split: if_splits)

lemma label_pass_labelled:
  assumes "map_of (label_pass L 0 cs ci) name = Some i"
  shows "(i < length cs \<and> L (cs ! i) = Some name) \<or> map_of ci name = Some i"
proof (cases "find (\<lambda>j. L (cs ! j) = Some name) (rev [0..<length cs])")
  case None
  with assms show ?thesis by (simp add: label_pass_map_of)
next
  case (Some j)
  with assms have "j = i" by (simp add: label_pass_map_of)
  with find_Some_member[OF Some] show ?thesis by simp
qed

lemma cell_str_Absent: "cell_str Absent = ''nan''"
  by (simp add: cell_str_def py_strip_def is_space_def py_lower_def lower_char_def)

lemma keys_select_themselves:
  "list_all (\<lambda>(key, name).
       key \<noteq> ''nan'' \<and>
       map_option snd (find (\<lambda>(k, n). py_in k key) required_columns) = Some name)
     required_columns"
  by code_simp

lemma exact_imp_substring:
  assumes "exact_label c = Some name"
  shows "substring_label c = Some name"
proof -
  from assms obtain p where p: "find (\<lambda>(key, name). key = cell_str c) required_columns = Some p"
    and n: "snd p = name"
    unfolding exact_label_def by (cases "find (\<lambda>(key, name). key = cell_str c) required_columns") simp_all
  from find_Some_member[OF p] have "fst p = cell_str c" "p \<in> set required_columns"
    by (simp_all add: case_prod_beta)
  with n have keys: "(cell_str c, name) \<in> set required_columns"
    by (cases p) simp
  have "\<forall>x\<in>set required_columns. (\<lambda>(key, name).
       key \<noteq> ''nan'' \<and>
       map_option snd (find (\<lambda>(k, n). py_in k key) required_columns) = Some name) x"
    using keys_select_themselves by (simp only: list_all_iff)
  from bspec[OF this keys] have sel: "cell_str c \<noteq> ''nan''"
    "map_option snd (find (\<lambda>(k, n). py_in k (cell_str c)) required_columns) = Some name"
    by simp_all
  from sel(1) have "notna c" using cell_str_Absent by (cases c) auto
  with sel(2) show ?thesis by (simp add: substring_label_def)
qed

lemma map_columns_labelled:
  assumes "map_of (map_columns hdr) name = Some i"
  shows "i < length hdr \<and> column_label hdr (hdr ! i) = Some name"
proof (cases "length (exact_pass 0 hdr []) < length required_columns")
  case False
  with assms have "map_of (label_pass exact_label 0 hdr []) name = Some i"
    by (simp add: map_columns_def exact_pass_label Let_def)
  from label_pass_labelled[OF this] False show ?thesis
    by (simp add: column_label_def)
next
  case True
  with assms have "map_of (label_pass substring_label 0 hdr (label_pass exact_label 0 hdr [])) name = Some i"
    by (simp add: map_columns_def exact_pass_label substring_pass_label Let_def)
  from label_pass_labelled[OF this] show ?thesis
  proof
    assume "i < length hdr \<and> substring_label (hdr ! i) = Some name"
    with True show ?thesis by (simp add: column_label_def)
  next
    assume "map_of (label_pass exact_label 0 hdr []) name = Some i"
    from label_pass_labelled[OF this] have "i < length hdr" "exact_label (hdr ! i) = Some name"
      by auto
    with True exact_imp_substring show ?thesis by (simp add: column_label_def)
  qed
qed

lemma map_columns_distinct: "distinct (map fst (map_columns hdr))"
  by (simp add: map_columns_def exact_pass_label substring_pass_label label_pass_distinct Let_def)

lemma canonical_not_generic: "c \<in> set required_columns_list \<Longrightarrow> c \<noteq> ''column_'' @ s"
  by (auto simp: required_columns_list_def)

lemma final_columns_nth:
  "i < length hdr \<Longrightarrow>
   final_columns hdr ci ! i =
     (case find (\<lambda>(col_name, col_index). i = col_index) ci of
        Some (col_name, col_index) \<Rightarrow> col_name
      | None \<Rightarrow> ''column_'' @ str_nat i)"
  by (simp add: final_columns_def cong: option.case_cong)

lemma final_columns_canonical:
  assumes c: "c \<in> set required_columns_list"
  shows "(i < length (final_columns hdr (map_columns hdr)) \<and>
          final_columns hdr (map_columns hdr) ! i = c) \<longleftrightarrow>
         map_of (map_columns hdr) c = Some i"
proof
  let ?ci = "map_columns hdr"
  assume a: "i < length (final_columns hdr ?ci) \<and> final_columns hdr ?ci ! i = c"
  then have i: "i < length hdr" by (simp add: final_columns_def)
  show "map_of ?ci c = Some i"
  proof (cases "find (\<lambda>(col_name, col_index). i = col_index) ?ci")
    case None
    with a i have "c = ''column_'' @ str_nat i" by (simp add: final_columns_nth)
    with canonical_not_generic[OF c] show ?thesis by blast
  next
    case (Some p)
    obtain cn idx where p: "p = (cn, idx)" by (cases p)
    from find_Some_member[OF Some] p have "idx = i" "(cn, idx) \<in> set ?ci" by auto
    moreover from a i Some p have "cn = c" by (simp add: final_columns_nth)
    ultimately show ?thesis using map_columns_distinct[of hdr] by simp
  qed
next
  let ?ci = "map_columns hdr"
  assume a: "map_of ?ci c = Some i"
  from map_columns_labelled[OF a] have i: "i < length hdr" and l: "column_label hdr (hdr ! i) = Some c"
    by auto
  from a have mem: "(c, i) \<in> set ?ci" by (rule map_of_SomeD)
  have "final_columns hdr ?ci ! i = c"
  proof (cases "find (\<lambda>(col_name, col_index). i = col_index) ?ci")
    case None
    with mem show ?thesis by (auto simp: find_None_iff)
  next
    case (Some p)
    obtain cn idx where p: "p = (cn, idx)" by (cases p)
    from find_Some_member[OF Some] p have "idx = i" "(cn, i) \<in> set ?ci" by auto
    then have "map_of ?ci cn = Some i" using map_columns_distinct[of hdr] by simp
    from map_columns_labelled[OF this] l have "cn = c" by simp
    with Some p i show ?thesis by (simp add: final_columns_nth)
  qed
  with i show "i < length (final_columns hdr ?ci) \<and> final_columns hdr ?ci ! i = c"
    by (simp add: final_columns_def)
qed

lemma required_columns_list_distinct: "distinct required_columns_list"
  by (simp add: required_columns_list_def)

text \<open>
  C7. For every grid in which a header row is located (the rows of a frame all have the
  width of the header row), \<open>process_kuda_excel\<close> returns a table whose columns are exactly
  the seven canonical columns in canonical order; a data row of the table holds, for a
  canonical name mapped from the header row, the cell of the grid row at the mapped index,
  and an absent cell for a canonical name that was not mapped; the data rows are the grid
  rows after the header row, all of them, in grid order.
\<close>

theorem table_builder_shape:
  assumes "locate_header g = Inr h" and "\<forall>row\<in>set g. length row = length (g ! h)"
  shows "process_kuda_excel g =
           Inr \<lparr>df_columns = required_columns_list,
                df_rows = map (\<lambda>row. map (\<lambda>name. case map_of (map_columns (g ! h)) name of
                                                    Some i \<Rightarrow> row ! i
                                                  | None \<Rightarrow> Absent)
                                     required_columns_list)
                              (drop (Suc h) g),
                df_attrs = extract_metadata g h\<rparr>"
proof -
  from locate_header_bound[OF assms(1)] have h: "h < length g" .
  then have hdr: "hd (drop h g) = g ! h" by (simp add: hd_drop_conv_nth)
  have rows: "drop 1 (drop h g) = drop (Suc h) g" by simp
  let ?fc = "final_columns (g ! h) (map_columns (g ! h))"
  have w: "\<forall>r\<in>set (drop (Suc h) g). length r = length ?fc"
  proof
    fix r assume "r \<in> set (drop (Suc h) g)"
    then have "r \<in> set g" by (rule in_set_dropD)
    with assms(2) show "length r = length ?fc" by (simp add: final_columns_def)
  qed
  have body: "process_body g =
      select_columns required_columns_list
        (fold add_missing required_columns_list
           \<lparr>df_columns = ?fc, df_rows = drop (Suc h) g, df_attrs = extract_metadata g h\<rparr>)"
    by (simp only: process_body_def assms(1) sum.case Let_def hdr rows)
  have "process_body g = Inr \<lparr>df_columns = required_columns_list,
                df_rows = map (\<lambda>row. map (\<lambda>name. case map_of (map_columns (g ! h)) name of
                                                    Some i \<Rightarrow> row ! i
                                                  | None \<Rightarrow> Absent)
                                     required_columns_list)
                              (drop (Suc h) g),
                df_attrs = extract_metadata g h\<rparr>"
    unfolding body
    by (rule build_table[OF required_columns_list_distinct _ w]) (rule final_columns_canonical)
  then show ?thesis by (simp add: process_kuda_excel_def)
qed

lemma grid_small_header: "locate_header grid_small = Inr 1"
  by code_simp

lemma grid_small_rows:
  "map (\<lambda>row. map (\<lambda>name. case map_of (map_columns (grid_small ! 1)) name of
                              Some i \<Rightarrow> row ! i
                            | None \<Rightarrow> Absent)
               required_columns_list)
       (drop (Suc 1) grid_small) =
   [[Text ''10/01/20 21:12:38'', Number 5 ''5'', Absent, Absent, Absent, Absent, Absent],
    [Text ''16/01/20 09:22:35'', Text (naira @ ''1,234.56''), Absent, Absent, Absent, Absent, Absent],
    [Text ''10/01/20 21:12:38'', Number 5 ''5'', Absent, Absent, Absent, Absent, Absent]]"
  by code_simp

lemma grid_small_attrs:
  "extract_metadata grid_small 1 =
     \<lparr>account_number = Some ''1100050449'', closing_balance = None,
      summary_in = None, summary_out = None\<rparr>"
  by code_simp

text \<open>The theorem at a grid with one metadata row, a header row with two canonical labels
  and three data rows, two of them equal.\<close>

theorem table_builder_shape_witness:
  "process_kuda_excel grid_small =
     Inr \<lparr>df_columns = required_columns_list,
          df_rows =
            [[Text ''10/01/20 21:12:38'', Number 5 ''5'', Absent, Absent, Absent, Absent, Absent],
             [Text ''16/01/20 09:22:35'', Text (naira @ ''1,234.56''), Absent, Absent, Absent,
              Absent, Absent],
             [Text ''10/01/20 21:12:38'', Number 5 ''5'', Absent, Absent, Absent, Absent, Absent]],
          df_attrs = \<lparr>account_number = Some ''1100050449'', closing_balance = None,
                      summary_in = None, summary_out = None\<rparr>\<rparr>"
proof -
  have rect: "\<forall>row\<in>set grid_small. length row = length (grid_small ! 1)"
    by (simp add: grid_small_def)
  from table_builder_shape[OF grid_small_header rect] show ?thesis
    by (simp only: grid_small_rows grid_small_attrs)
qed

section \<open>Money normalization: the sign of the result\<close>

lemma py_float_nonneg: "py_float s = Inr v \<Longrightarrow> 0 \<le> v"
  by (auto simp: py_float_def Let_def split: list.splits if_splits)

lemma clean_money_in_nonneg:
  assumes "\<forall>v t. x \<noteq> Number v t"
  shows "0 \<le> clean_money_in x"
proof (cases x)
  case Absent
  then show ?thesis by (simp add: clean_money_in_def)
next
  case (Text s)
  then show ?thesis
    by (auto simp: clean_money_in_def Let_def split: sum.splits dest: py_float_nonneg)
next
  case (Number v t)
  with assms show ?thesis by simp
next
  case (Stamp d)
  then show ?thesis
    by (auto simp: clean_money_in_def Let_def split: sum.splits dest: py_float_nonneg)
qed

lemma replace_not_number:
  "\<forall>v t. x \<noteq> Number v t \<Longrightarrow>
   \<forall>v t. replace_text ''nan'' Absent (replace_text [] Absent x) \<noteq> Number v t"
  by (auto simp: replace_text_def)

text \<open>
  C5 (as amended). For every cell that is absent or not a number (a text, with or without a
  minus sign), the cleaned Money In, Money out and Balance value is non-negative: the
  characters other than digits and dots are dropped before the conversion, a leading minus
  sign among them. A cell that is already a number is passed through with its value, so a
  negative number stays negative.
\<close>

theorem money_nonnegative_unless_numeric:
  "((\<forall>v t. x \<noteq> Number v t) \<longrightarrow>
      0 \<le> normalize_money x \<and> 0 \<le> clean_money_in x \<and> 0 \<le> clean_money_out x \<and>
      0 \<le> clean_balance x) \<and>
   normalize_money (Number w t) = w \<and> clean_money_in (Number w t) = w \<and>
   clean_money_out (Number w t) = w \<and> clean_balance (Number w t) = w"
proof -
  have "normalize_money (Number w t) = w" "clean_money_in (Number w t) = w"
    by (simp_all add: normalize_money_def replace_text_def clean_money_in_def)
  moreover have "(\<forall>v t. x \<noteq> Number v t) \<longrightarrow> 0 \<le> normalize_money x \<and> 0 \<le> clean_money_in x"
    using clean_money_in_nonneg replace_not_number
    by (auto simp: normalize_money_def)
  ultimately show ?thesis by (simp add: clean_money_out_def clean_balance_def)
qed

lemma minus_sign_value: "normalize_money (Text (naira @ ''-1,234.56'')) = 30864 / 25"
  by code_simp

text \<open>The theorem at the text of a negative amount: the sign is lost.\<close>

theorem money_nonnegative_unless_numeric_witness:
  "normalize_money (Text (naira @ ''-1,234.56'')) = 30864 / 25 \<and>
   0 \<le> normalize_money (Text (naira @ ''-1,234.56'')) \<and>
   0 \<le> clean_balance (Text (naira @ ''-1,234.56''))"
  using money_nonnegative_unless_numeric[of "Text (naira @ ''-1,234.56'')"] minus_sign_value
  by simp

text \<open>C5 as stated fails for a numeric cell: the number -5 is returned as it is.\<close>

theorem money_negative_numeric_counterexample:
  "normalize_money (Number (- 5) ''-5.0'') = - 5 \<and> normalize_money (Number (- 5) ''-5.0'') < 0 \<and>
   clean_money_in (Number (- 5) ''-5.0'') < 0"
  by (simp add: normalize_money_def replace_text_def clean_money_in_def)

section \<open>Facts about column statements\<close>

lemma positions_of_Cons:
  "positions_of c names = i # rest \<Longrightarrow> i < length names \<and> names ! i = c"
proof -
  assume "positions_of c names = i # rest"
  then have "i \<in> set (filter (\<lambda>i. names ! i = c) [0..<length names])"
    by (simp add: positions_of_def)
  then show ?thesis by simp
qed

lemma column_index_Some:
  "column_index name df = Some i \<Longrightarrow> i < length (df_columns df) \<and> df_columns df ! i = name"
  by (auto simp: column_index_def split: list.splits dest: positions_of_Cons)

lemma column_index_member:
  "name \<in> set (df_columns df) \<Longrightarrow> \<exists>i. column_index name df = Some i"
proof -
  assume "name \<in> set (df_columns df)"
  then obtain i where "i < length (df_columns df)" "df_columns df ! i = name"
    by (auto simp: in_set_conv_nth)
  then have "i \<in> set (positions_of name (df_columns df))" by (simp add: positions_of_def)
  then show ?thesis by (cases "positions_of name (df_columns df)") (auto simp: column_index_def)
qed

lemma map_column_columns [simp]: "df_columns (map_column name f df) = df_columns df"
  by (simp add: map_column_def split: option.splits)

lemma map_column_attrs [simp]: "df_attrs (map_column name f df) = df_attrs df"
  by (simp add: map_column_def split: option.splits)

lemma column_index_map_column [simp]:
  "column_index name (map_column name' f df) = column_index name df"
  by (simp add: column_index_def)

lemma update_twice: "r[i := g (r[i := f (r ! i)] ! i)] = r[i := g (f (r ! i))]"
  by (cases "i < length r") (simp_all add: list_update_beyond)

lemma column_index_rows [simp]: "column_index name (df\<lparr>df_rows := rs\<rparr>) = column_index name df"
  by (simp add: column_index_def)

lemma map_column_fuse:
  "map_column name g (map_column name f df) = map_column name (\<lambda>c. g (f c)) df"
  by (cases "column_index name df") (simp_all add: map_column_def comp_def update_twice)

section \<open>\<open>filter_out_savings\<close>: the rows that are kept\<close>

lemma description_cell:
  "replace_text ''nan'' (Text []) (astype_str (fillna (Text []) c)) = Text (description_text c)"
  by (cases c) (auto simp: replace_text_def astype_str_def fillna_def description_text_def)

lemma description_block_eq:
  "description_block df = map_column ''Description'' (\<lambda>c. Text (description_text c)) df"
  by (simp add: description_block_def Let_def map_column_fuse description_cell)

lemma filter_out_savings_rows_aux:
  assumes i: "column_index ''Description'' df = Some i"
    and w: "\<forall>r\<in>set (df_rows df). i < length r"
  shows "df_rows (filter_out_savings df) =
           map (\<lambda>r. r[i := Text (description_text (r ! i))])
               (filter (\<lambda>r. \<not> py_in ''savings'' (py_lower (description_text (r ! i))))
                       (df_rows df))"
proof -
  from column_index_Some[OF i] have mem: "''Description'' \<in> set (df_columns df)"
    by (auto simp: in_set_conv_nth)
  let ?D = "\<lambda>r. r[i := Text (description_text (r ! i))]"
  have rows: "df_rows (description_block df) = map ?D (df_rows df)"
    by (simp add: description_block_eq map_column_def i)
  have idx: "column_index ''Description'' (description_block df) = Some i"
    by (simp add: description_block_eq i)
  have msk: "savings_mask (description_block df) =
             (\<lambda>r. \<not> py_in ''savings'' (py_lower (py_str (r ! i))))"
    by (rule ext) (simp add: savings_mask_def idx)
  have "df_rows (filter_out_savings df) =
        filter (\<lambda>r. \<not> py_in ''savings'' (py_lower (py_str (r ! i)))) (map ?D (df_rows df))"
    using mem by (simp add: filter_out_savings_def Let_def keep_rows_def msk rows)
  also have "\<dots> = map ?D (filter (\<lambda>r. \<not> py_in ''savings'' (py_lower (py_str (?D r ! i))))
                              (df_rows df))"
    by (simp add: filter_map comp_def)
  also have "filter (\<lambda>r. \<not> py_in ''savings'' (py_lower (py_str (?D r ! i)))) (df_rows df) =
             filter (\<lambda>r. \<not> py_in ''savings'' (py_lower (description_text (r ! i)))) (df_rows df)"
    by (rule filter_cong[OF refl]) (use w in simp)
  finally show ?thesis .
qed

lemma savings_example_eval:
  "df_rows (filter_out_savings savings_example) = [[Text ''Rent payment'']]"
  by code_simp

text \<open>
  C9. \<open>filter_out_savings\<close> keeps exactly the rows whose description does not contain
  \<open>savings\<close>, case-insensitively, in their order; an absent description is read as the empty
  text and its row is kept; without a \<open>Description\<close> column every row is kept. In the rows
  kept the description is the text read (the empty text for an absent one), the other cells
  and the column names are as they were. Of the descriptions \<open>Savings top-up\<close>,
  \<open>Rent payment\<close>, \<open>SAVINGS withdrawal\<close> only \<open>Rent payment\<close> is left.
\<close>

theorem filter_out_savings_keeps:
  "(column_index ''Description'' df = Some i \<and> (\<forall>r\<in>set (df_rows df). i < length r) \<longrightarrow>
      df_rows (filter_out_savings df) =
        map (\<lambda>r. r[i := Text (description_text (r ! i))])
            (filter (\<lambda>r. \<not> py_in ''savings'' (py_lower (description_text (r ! i))))
                    (df_rows df))) \<and>
   (''Description'' \<notin> set (df_columns df) \<longrightarrow> filter_out_savings df = df) \<and>
   df_columns (filter_out_savings df) = df_columns df \<and>
   description_text Absent = [] \<and>
   df_rows (filter_out_savings savings_example) = [[Text ''Rent payment'']]"
proof -
  have "df_columns (filter_out_savings df) = df_columns df"
    by (simp add: filter_out_savings_def Let_def keep_rows_def description_block_eq)
  moreover have "''Description'' \<notin> set (df_columns df) \<longrightarrow> filter_out_savings df = df"
    by (simp add: filter_out_savings_def)
  moreover have "description_text Absent = []" by (simp add: description_text_def)
  ultimately show ?thesis
    using filter_out_savings_rows_aux savings_example_eval by blast
qed

text \<open>The theorem at a three-column frame with a savings row and a row without description.\<close>

theorem filter_out_savings_keeps_witness:
  "df_rows (filter_out_savings statement_example) =
     [[Text ''not a date'', Number (- 5) ''-5.0'', Text []]]"
proof -
  have i: "column_index ''Description'' statement_example = Some 2" by code_simp
  have w: "\<forall>r\<in>set (df_rows statement_example). 2 < length r"
    by (simp add: statement_example_def)
  have e: "map (\<lambda>r. r[2 := Text (description_text (r ! 2))])
            (filter (\<lambda>r. \<not> py_in ''savings'' (py_lower (description_text (r ! 2))))
                    (df_rows statement_example)) =
           [[Text ''not a date'', Number (- 5) ''-5.0'', Text []]]"
    by code_simp
  from filter_out_savings_keeps[of statement_example 2] i w e show ?thesis by simp
qed

section \<open>The transforms leave their argument alone\<close>

lemma df_copy_assign:
  "df_assign (st @ [d]) (length st) f = st @ [f d]"
  by (simp add: df_assign_def)

lemma clean_money_columns_on_eq:
  "clean_money_columns_on fstr st a = (st @ [clean_money_columns fstr (st ! a)], length st)"
  by (simp add: clean_money_columns_on_def df_copy_def df_copy_assign clean_money_columns_def Let_def)

lemma parse_dates_on_eq:
  "parse_dates_on st a = (st @ [parse_dates (st ! a)], length st)"
  by (simp add: parse_dates_on_def df_copy_def df_copy_assign Let_def)

lemma description_block_columns: "df_columns (description_block df) = df_columns df"
  by (simp add: description_block_eq)

lemma filter_out_savings_on_eq:
  "filter_out_savings_on st a =
     (if ''Description'' \<in> set (df_columns (st ! a))
      then (st @ [description_block (st ! a), filter_out_savings (st ! a)], Suc (length st))
      else (st @ [st ! a], length st))"
  by (simp add: filter_out_savings_on_def df_copy_def df_copy_assign df_alloc_def Let_def
      filter_out_savings_def nth_append)

text \<open>
  C10. Each of \<open>clean_money_columns\<close>, \<open>parse_dates\<close> and \<open>filter_out_savings\<close>, run on a
  store and the address of a frame in it, returns the address of a frame that was not in the
  store before; every frame that was in the store, the argument among them, has the columns,
  rows and values it had before the call; and the frame returned is the transform of the
  argument.
\<close>

theorem transforms_leave_argument:
  assumes "a < length st"
  shows "(case clean_money_columns_on fstr st a of
            (st', r) \<Rightarrow> take (length st) st' = st \<and> st' ! a = st ! a \<and> r \<noteq> a \<and>
                        r < length st' \<and> st' ! r = clean_money_columns fstr (st ! a)) \<and>
         (case parse_dates_on st a of
            (st', r) \<Rightarrow> take (length st) st' = st \<and> st' ! a = st ! a \<and> r \<noteq> a \<and>
                        r < length st' \<and> st' ! r = parse_dates (st ! a)) \<and>
         (case filter_out_savings_on st a of
            (st', r) \<Rightarrow> take (length st) st' = st \<and> st' ! a = st ! a \<and> r \<noteq> a \<and>
                        r < length st' \<and> st' ! r = filter_out_savings (st ! a))"
  using assms
  by (simp add: clean_money_columns_on_eq parse_dates_on_eq filter_out_savings_on_eq nth_append
      filter_out_savings_def)

text \<open>The theorem at a store that holds one frame.\<close>

theorem transforms_leave_argument_witness:
  "(case filter_out_savings_on [statement_example] 0 of
      (st', r) \<Rightarrow> st' ! 0 = statement_example \<and> r = 2 \<and>
                  df_rows (st' ! r) = [[Text ''not a date'', Number (- 5) ''-5.0'', Text []]]) \<and>
   (case parse_dates_on [statement_example] 0 of
      (st', r) \<Rightarrow> st' ! 0 = statement_example \<and> r = 1) \<and>
   (case clean_money_columns_on (\<lambda>v. []) [statement_example] 0 of
      (st', r) \<Rightarrow> st' ! 0 = statement_example \<and> r = 1)"
proof -
  have a: "0 < length [statement_example]" by simp
  have d: "''Description'' \<in> set (df_columns statement_example)"
    by (simp add: statement_example_def)
  have e: "df_rows (filter_out_savings statement_example) =
      [[Text ''not a date'', Number (- 5) ''-5.0'', Text []]]" by code_simp
  from transforms_leave_argument[OF a, of "\<lambda>v. []"] d e show ?thesis
    by (simp add: clean_money_columns_on_eq parse_dates_on_eq filter_out_savings_on_eq)
qed

section \<open>\<open>parse_dates\<close>: the first format that parses\<close>

lemma parse_format_error: "parse_format f = Inl e \<Longrightarrow> \<exists>m. e = ValueError m"
proof (induction f arbitrary: e rule: parse_format.induct)
  case 1
  then show ?case by simp
next
  case (2 c cs)
  show ?case
  proof (cases "c = CHR ''%''")
    case True
    with "2.prems" "2.IH"(1) show ?thesis
      by (auto split: list.splits option.splits sum.splits)
  next
    case False
    show ?thesis
    proof (cases "is_space c")
      case True
      with False "2.prems" "2.IH"(2) show ?thesis by (auto split: sum.splits)
    next
      case nsp: False
      with False "2.prems" "2.IH"(3) show ?thesis by (auto split: sum.splits)
    qed
  qed
qed

lemma build_datetime_error: "build_datetime found = Inl e \<Longrightarrow> \<exists>m. e = ValueError m"
  by (auto simp: build_datetime_def Let_def split: if_splits)

lemma strptime_error: "strptime s f = Inl e \<Longrightarrow> \<exists>m. e = ValueError m"
  by (auto simp: strptime_def split: sum.splits list.splits if_splits
      dest: parse_format_error build_datetime_error)

lemma try_formats_find:
  "try_formats s fmts =
     (case find (\<lambda>fmt. \<not> isl (strptime s fmt)) fmts of
        Some fmt \<Rightarrow> Stamp (projr (strptime s fmt))
      | None \<Rightarrow> Absent)"
proof (induction fmts)
  case Nil
  then show ?case by simp
next
  case (Cons fmt fmts)
  show ?case
  proof (cases "strptime s fmt")
    case (Inl e)
    from strptime_error[OF Inl] obtain m where "e = ValueError m" by blast
    with Inl Cons show ?thesis by simp
  next
    case (Inr d)
    then show ?thesis by simp
  qed
qed

lemma nat_text_formats: "find (\<lambda>fmt. \<not> isl (strptime ''NaT'' fmt)) date_formats = None"
  by code_simp

lemma parse_dates_fused:
  "parse_dates df =
     (if ''Date/Time'' \<in> set (df_columns df)
      then map_column ''Date/Time'' normalize_date df else df)"
proof -
  have "normalize_date =
        (\<lambda>c. parse_date_cell (replace_text [] Absent (replace_text ''nan'' Absent (astype_str c))))"
    by (rule ext) (simp add: normalize_date_def)
  then show ?thesis by (simp add: parse_dates_def Let_def map_column_fuse)
qed

lemma normalize_date_examples:
  "normalize_date (Text ''16/01/20 09:22:35'') =
     Stamp \<lparr>year = 2020, month = 1, day = 16, hour = 9, minute = 22, second = 35\<rparr>"
  "normalize_date (Text ''not a date'') = Absent"
  by code_simp+

text \<open>
  C6. For every cell of the \<open>Date/Time\<close> column, \<open>parse_dates\<close> gives the result of the first
  format of the list, in its order, that parses the text of the cell, and the null value
  when the cell is absent, empty or \<open>nan\<close> or when no format parses; it is a value for every
  cell (every exception of the source is a branch of the loop body that ends in the null
  value), and the frame returned is the argument with this applied to that column. The
  text \<open>16/01/20 09:22:35\<close> parses, to 16 January 2020, 09:22:35, and \<open>not a date\<close> becomes
  the null value.
\<close>

theorem parse_dates_first_format:
  "normalize_date c =
     (if py_str c = ''nan'' \<or> py_str c = [] then Absent
      else case find (\<lambda>fmt. \<not> isl (strptime (py_str c) fmt)) date_formats of
             Some fmt \<Rightarrow> Stamp (projr (strptime (py_str c) fmt))
           | None \<Rightarrow> Absent) \<and>
   parse_dates df =
     (if ''Date/Time'' \<in> set (df_columns df)
      then map_column ''Date/Time'' normalize_date df else df) \<and>
   normalize_date (Text ''16/01/20 09:22:35'') =
     Stamp \<lparr>year = 2020, month = 1, day = 16, hour = 9, minute = 22, second = 35\<rparr> \<and>
   normalize_date (Text ''not a date'') = Absent"
proof -
  have "normalize_date c =
     (if py_str c = ''nan'' \<or> py_str c = [] then Absent
      else case find (\<lambda>fmt. \<not> isl (strptime (py_str c) fmt)) date_formats of
             Some fmt \<Rightarrow> Stamp (projr (strptime (py_str c) fmt))
           | None \<Rightarrow> Absent)"
  proof (cases "py_str c = ''NaT''")
    case True
    then show ?thesis
      by (simp add: normalize_date_def astype_str_def replace_text_def parse_date_cell_def
          nat_text_formats)
  next
    case False
    then show ?thesis
      by (simp add: normalize_date_def astype_str_def replace_text_def parse_date_cell_def
          try_formats_find)
  qed
  with parse_dates_fused normalize_date_examples show ?thesis by blast
qed

text \<open>The theorem at a frame with one date that parses and one that does not.\<close>

theorem parse_dates_first_format_witness:
  "df_rows (parse_dates statement_example) =
     [[Stamp \<lparr>year = 2020, month = 1, day = 16, hour = 9, minute = 22, second = 35\<rparr>,
       Text (naira @ ''1,234.56''), Text ''Savings top-up''],
      [Absent, Number (- 5) ''-5.0'', Absent]]"
proof -
  have "df_rows (map_column ''Date/Time'' normalize_date statement_example) =
     [[Stamp \<lparr>year = 2020, month = 1, day = 16, hour = 9, minute = 22, second = 35\<rparr>,
       Text (naira @ ''1,234.56''), Text ''Savings top-up''],
      [Absent, Number (- 5) ''-5.0'', Absent]]"
    by code_simp
  moreover have "''Date/Time'' \<in> set (df_columns statement_example)"
    by (simp add: statement_example_def)
  ultimately show ?thesis
    using parse_dates_first_format[of Absent statement_example] by simp
qed

end
